theory Spec2Isabelle
  imports Main "HOL-Library.AList"
begin

section \<open>JavaScript strings\<close>

text \<open>
  A JavaScript string is modelled as a \<^typ>\<open>string\<close>: a list of code units. The functions
  below are the string methods the sources call, with the results JavaScript gives.
\<close>

text \<open>\<^verbatim>\<open>s.startsWith(p)\<close>\<close>

fun startsWith :: "string \<Rightarrow> string \<Rightarrow> bool" where
  "startsWith s [] = True"
| "startsWith [] (p # ps) = False"
| "startsWith (c # cs) (p # ps) = (c = p \<and> startsWith cs ps)"

text \<open>\<^verbatim>\<open>s.indexOf(c)\<close> for a one-character needle: the first index, or -1.\<close>

fun indexOf :: "string \<Rightarrow> char \<Rightarrow> int" where
  "indexOf [] c = - 1"
| "indexOf (x # xs) c =
     (if x = c then 0 else (let i = indexOf xs c in if i = - 1 then - 1 else i + 1))"

text \<open>
  \<^verbatim>\<open>s.slice(start, fin)\<close>: a negative index counts from the end, and both are clamped
  to the string.
\<close>

definition slice :: "string \<Rightarrow> int \<Rightarrow> int \<Rightarrow> string" where
  "slice s start fin =
     (let len = int (length s);
          lo = (if start < 0 then max (len + start) 0 else min start len);
          hi = (if fin < 0 then max (len + fin) 0 else min fin len)
      in take (nat (hi - lo)) (drop (nat lo) s))"

text \<open>\<^verbatim>\<open>s.slice(start)\<close>\<close>

definition sliceFrom :: "string \<Rightarrow> int \<Rightarrow> string" where
  "sliceFrom s start = slice s start (int (length s))"

text \<open>\<^verbatim>\<open>xs.join(sep)\<close> on an array of strings.\<close>

fun join :: "string \<Rightarrow> string list \<Rightarrow> string" where
  "join sep [] = []"
| "join sep [x] = x"
| "join sep (x # y # ys) = x @ sep @ join sep (y # ys)"

text \<open>The decimal digits, \<^verbatim>\<open>\d\<close> of a regular expression.\<close>

definition isDigit :: "char \<Rightarrow> bool" where
  "isDigit c = (48 \<le> (of_char c :: nat) \<and> (of_char c :: nat) \<le> 57)"

text \<open>
  \<^verbatim>\<open>Number.parseInt(digits, 10)\<close> on a string of decimal digits. The model computes the
  exact natural number; JavaScript rounds a value above \<open>2^53\<close> to a double, which is still
  above every array length, so the array reads below agree.
\<close>

definition parseInt10 :: "string \<Rightarrow> nat" where
  "parseInt10 ds = foldl (\<lambda>n c. 10 * n + ((of_char c :: nat) - 48)) 0 ds"

text \<open>The decimal rendering of a natural number, as a template literal prints it.\<close>

fun natToString :: "nat \<Rightarrow> string" where
  "natToString n =
     (if n < 10 then [char_of (48 + n)]
      else natToString (n div 10) @ [char_of (48 + n mod 10)])"

declare natToString.simps [simp del]

section \<open>Slash commands (src/acp/slash-commands.ts)\<close>

record FileSlashCommand =
  name :: string
  description :: string
  content :: string
  source :: string

subsection \<open>parseCommandArgs\<close>

text \<open>
  The loop of \<^verbatim>\<open>parseCommandArgs\<close> over the characters of the argument string, with its
  three variables \<^verbatim>\<open>args\<close>, \<^verbatim>\<open>current\<close> and \<^verbatim>\<open>inQuote\<close> (\<open>None\<close> for null).
  \<open>CHR 0x22\<close> is the double quote, \<open>CHR 0x27\<close> the single quote, \<open>CHR 0x09\<close> the tab.
\<close>

fun parseCommandArgs_loop ::
  "string \<Rightarrow> string list \<Rightarrow> string \<Rightarrow> char option \<Rightarrow> string list \<times> string" where
  "parseCommandArgs_loop [] args current inQuote = (args, current)"
| "parseCommandArgs_loop (ch # rest) args current inQuote =
     (case inQuote of
        Some q \<Rightarrow>
          (if ch = q then parseCommandArgs_loop rest args current None
           else parseCommandArgs_loop rest args (current @ [ch]) inQuote)
      | None \<Rightarrow>
          (if ch = CHR 0x22 \<or> ch = CHR 0x27 then parseCommandArgs_loop rest args current (Some ch)
           else if ch = CHR '' '' \<or> ch = CHR 0x09 then
             (if current \<noteq> [] then parseCommandArgs_loop rest (args @ [current]) [] None
              else parseCommandArgs_loop rest args current None)
           else parseCommandArgs_loop rest args (current @ [ch]) None))"

definition parseCommandArgs :: "string \<Rightarrow> string list" where
  "parseCommandArgs argsString =
     (case parseCommandArgs_loop argsString [] [] None of
        (args, current) \<Rightarrow> (if current \<noteq> [] then args @ [current] else args))"

subsection \<open>substituteArgs\<close>

text \<open>
  \<^verbatim>\<open>result.replace(/\$@/g, args.join(' '))\<close> passes a string as the replacement, and
  \<^verbatim>\<open>String.prototype.replace\<close> reads a replacement string as a template (ECMAScript's
  GetSubstitution): \<^verbatim>\<open>$$\<close> stands for one dollar sign, \<^verbatim>\<open>$&\<close> for the matched text,
  a dollar sign and a backquote (\<open>CHR 0x60\<close>) for the text before the match, a dollar sign
  and a single quote for the text after it. The pattern has no capture group, so a dollar
  sign before digits or before \<^verbatim>\<open><\<close> stays as it is, like every other character.
\<close>

fun getSubstitution :: "string \<Rightarrow> string \<Rightarrow> string \<Rightarrow> string \<Rightarrow> string" where
  "getSubstitution matched pre post [] = []"
| "getSubstitution matched pre post [c] = [c]"
| "getSubstitution matched pre post (c # d # t) =
     (if c = CHR ''$'' then
        (if d = CHR ''$'' then CHR ''$'' # getSubstitution matched pre post t
         else if d = CHR ''&'' then matched @ getSubstitution matched pre post t
         else if d = CHR 0x60 then pre @ getSubstitution matched pre post t
         else if d = CHR 0x27 then post @ getSubstitution matched pre post t
         else c # getSubstitution matched pre post (d # t))
      else c # getSubstitution matched pre post (d # t))"

text \<open>
  The global replacement of the pattern \<^verbatim>\<open>/\$@/g\<close>: the matches are found from left to
  right in the original string (\<open>pre\<close> is the part already scanned), and each is replaced
  by the expansion of the template.
\<close>

fun replaceAllDollarAt :: "string \<Rightarrow> string \<Rightarrow> string \<Rightarrow> string" where
  "replaceAllDollarAt pre [] template = []"
| "replaceAllDollarAt pre [c] template = [c]"
| "replaceAllDollarAt pre (c # d # t) template =
     (if c = CHR ''$'' \<and> d = CHR ''@'' then
        getSubstitution ''$@'' pre t template @ replaceAllDollarAt (pre @ ''$@'') t template
      else c # replaceAllDollarAt (pre @ [c]) (d # t) template)"

text \<open>\<^verbatim>\<open>args[idx] ?? ''\<close>: an index outside the array reads undefined.\<close>

definition argAt :: "string list \<Rightarrow> int \<Rightarrow> string" where
  "argAt args idx = (if 0 \<le> idx \<and> idx < int (length args) then args ! nat idx else [])"

text \<open>
  The global replacement of \<^verbatim>\<open>/\$(\d+)/g\<close> by the callback: a dollar sign followed by
  digits (as many as follow) is replaced by the argument the digits name.
\<close>

function replacePositional :: "string \<Rightarrow> string list \<Rightarrow> string" where
  "replacePositional [] args = []"
| "replacePositional (c # t) args =
     (if c = CHR ''$'' \<and> takeWhile isDigit t \<noteq> [] then
        argAt args (int (parseInt10 (takeWhile isDigit t)) - 1)
          @ replacePositional (dropWhile isDigit t) args
      else c # replacePositional t args)"
  by pat_completeness auto
termination
  by (relation "measure (\<lambda>(s, args). length s)")
     (auto simp: length_dropWhile_le le_imp_less_Suc)

definition substituteArgs :: "string \<Rightarrow> string list \<Rightarrow> string" where
  "substituteArgs body args =
     replacePositional (replaceAllDollarAt [] body (join '' '' args)) args"

subsection \<open>expandSlashCommand\<close>

text \<open>The two local constants of \<^verbatim>\<open>expandSlashCommand\<close>, for a text that starts with a slash.\<close>

definition commandName :: "string \<Rightarrow> string" where
  "commandName text =
     (let spaceIndex = indexOf text CHR '' ''
      in if spaceIndex = - 1 then sliceFrom text 1 else slice text 1 spaceIndex)"

definition argsString :: "string \<Rightarrow> string" where
  "argsString text =
     (let spaceIndex = indexOf text CHR '' ''
      in if spaceIndex = - 1 then [] else sliceFrom text (spaceIndex + 1))"

definition expandSlashCommand :: "string \<Rightarrow> FileSlashCommand list \<Rightarrow> string" where
  "expandSlashCommand text fileCommands =
     (if \<not> startsWith text ''/'' then text
      else (case find (\<lambda>c. name c = commandName text) fileCommands of
              None \<Rightarrow> text
            | Some cmd \<Rightarrow> substituteArgs (content cmd) (parseCommandArgs (argsString text))))"

section \<open>Prompt translation (src/acp/translate/prompt.ts)\<close>

datatype AttachmentType = image' | document'

record PiAttachment =
  id' :: string
  type' :: AttachmentType
  fileName :: string
  mimeType :: string
  size' :: nat
  content' :: string
  extractedText :: "string option"
  preview :: "string option"

definition guessFileNameFromMime :: "string \<Rightarrow> string" where
  "guessFileNameFromMime mime =
     (let ext = (if mime = ''image/png'' then ''png''
                 else if mime = ''image/jpeg'' then ''jpg''
                 else if mime = ''image/webp'' then ''webp''
                 else ''bin'')
      in ''attachment.'' @ ext)"

text \<open>
  The content blocks of the agent protocol, by their \<^verbatim>\<open>type\<close>, with the fields
  \<^verbatim>\<open>promptToPiMessage\<close> reads:
  \<^item> \<open>TextBlock text\<close>;
  \<^item> \<open>ResourceLinkBlock uri\<close>;
  \<^item> \<open>ImageBlock data mimeType uri\<close>, \<open>uri\<close> being \<open>None\<close> when it is null or undefined;
  \<^item> \<open>ResourceBlock uri mimeType text blob\<close>: the four properties of \<^verbatim>\<open>b.resource\<close>, each
    \<open>Some\<close> when \<^verbatim>\<open>typeof\<close> says it is a string and \<open>None\<close> otherwise;
  \<^item> \<open>AudioBlock data mimeType\<close>;
  \<^item> \<open>UnknownBlock\<close>: any other type.
\<close>

datatype ContentBlock =
    TextBlock string
  | ResourceLinkBlock string
  | ImageBlock string string "string option"
  | ResourceBlock "string option" "string option" "string option" "string option"
  | AudioBlock string string
  | UnknownBlock

text \<open>
  One round of the loop of \<^verbatim>\<open>promptToPiMessage\<close>. Its state is \<^verbatim>\<open>message\<close>,
  \<^verbatim>\<open>attachments\<close> and the number of identifiers minted so far. Two functions of the
  platform are parameters: \<open>byteLength\<close> is \<^verbatim>\<open>Buffer.byteLength(_, 'base64')\<close>, the byte
  length of a base64 payload once decoded, and \<open>randomUUID k\<close> is what the \<open>k\<close>-th call of
  \<^verbatim>\<open>crypto.randomUUID()\<close> returns. \<open>CHR 0x0A\<close> is the line feed.
\<close>

fun promptToPiMessage_step ::
  "(string \<Rightarrow> nat) \<Rightarrow> (nat \<Rightarrow> string) \<Rightarrow> string \<times> PiAttachment list \<times> nat \<Rightarrow> ContentBlock
     \<Rightarrow> string \<times> PiAttachment list \<times> nat" where
  "promptToPiMessage_step byteLength randomUUID (message, attachments, k) (TextBlock t) =
     (message @ t, attachments, k)"
| "promptToPiMessage_step byteLength randomUUID (message, attachments, k) (ResourceLinkBlock uri) =
     (message @ [CHR 0x0A] @ ''[Context] '' @ uri, attachments, k)"
| "promptToPiMessage_step byteLength randomUUID (message, attachments, k) (ImageBlock data mime uri) =
     (let ident = (case uri of Some u \<Rightarrow> u | None \<Rightarrow> randomUUID k);
          k' = (case uri of Some u \<Rightarrow> k | None \<Rightarrow> Suc k);
          sz = byteLength data
      in (message,
          attachments @
            [\<lparr>id' = ident, type' = image', fileName = guessFileNameFromMime mime,
              mimeType = mime, size' = sz, content' = data,
              extractedText = None, preview = None\<rparr>],
          k'))"
| "promptToPiMessage_step byteLength randomUUID (message, attachments, k)
       (ResourceBlock ruri rmime rtext rblob) =
     (let uri = (case ruri of Some u \<Rightarrow> u | None \<Rightarrow> ''(unknown)'')
      in (case rtext of
            Some t \<Rightarrow>
              (let mime = (case rmime of Some m \<Rightarrow> m | None \<Rightarrow> ''text/plain'')
               in (message @ [CHR 0x0A] @ ''[Embedded Context] '' @ uri @ '' ('' @ mime @ '')''
                     @ [CHR 0x0A] @ t,
                   attachments, k))
          | None \<Rightarrow>
              (case rblob of
                 Some b \<Rightarrow>
                   (let mime = (case rmime of Some m \<Rightarrow> m | None \<Rightarrow> ''application/octet-stream'');
                        bytes = byteLength b
                    in (message @ [CHR 0x0A] @ ''[Embedded Context] '' @ uri @ '' ('' @ mime
                          @ '', '' @ natToString bytes @ '' bytes)'',
                        attachments, k))
               | None \<Rightarrow>
                   (message @ [CHR 0x0A] @ ''[Embedded Context] '' @ uri, attachments, k))))"
| "promptToPiMessage_step byteLength randomUUID (message, attachments, k) (AudioBlock data mime) =
     (let bytes = byteLength data
      in (message @ [CHR 0x0A] @ ''[Audio] ('' @ mime @ '', '' @ natToString bytes
            @ '' bytes) not supported by pi-acp'',
          attachments, k))"
| "promptToPiMessage_step byteLength randomUUID (message, attachments, k) UnknownBlock =
     (message, attachments, k)"

definition promptToPiMessage ::
  "(string \<Rightarrow> nat) \<Rightarrow> (nat \<Rightarrow> string) \<Rightarrow> ContentBlock list \<Rightarrow> string \<times> PiAttachment list" where
  "promptToPiMessage byteLength randomUUID blocks =
     (case foldl (promptToPiMessage_step byteLength randomUUID) ([], [], 0) blocks of
        (message, attachments, k) \<Rightarrow> (message, attachments))"

text \<open>
  The arithmetic of Node's \<^verbatim>\<open>Buffer.byteLength(str, 'base64')\<close>: up to two trailing
  padding characters \<open>=\<close> are left out, and three quarters of the rest is the length. It
  stands for the parameter \<open>byteLength\<close> where a concrete payload is evaluated.
\<close>

definition base64ByteLength :: "string \<Rightarrow> nat" where
  "base64ByteLength str =
     (let len = length str;
          b1 = (if 0 < len \<and> str ! (len - 1) = CHR ''='' then len - 1 else len);
          b2 = (if 1 < b1 \<and> str ! (b1 - 1) = CHR ''='' then b1 - 1 else b1)
      in (b2 * 3) div 4)"

section \<open>JSON values\<close>

text \<open>
  What \<^verbatim>\<open>JSON.parse\<close> returns: the events of the backend and the payloads of its tools
  have no fixed shape. An object is the list of its own properties. Numbers are the
  integers (a JSON number with a fraction is outside the model).
\<close>

datatype json =
    JNull
  | JBool bool
  | JNum int
  | JStr string
  | JArr "json list"
  | JObj "(string \<times> json) list"

text \<open>What \<^verbatim>\<open>prompt\<close> throws, and what the language throws on a value it cannot use.\<close>

datatype Exception = invalidRequest string | TypeError

text \<open>
  Two functions of the language are parameters of the model: \<open>numberToString\<close> is the
  conversion of a number to a string, with its rounding and its exponent notation for large
  numbers, and \<open>stringify\<close> is \<^verbatim>\<open>JSON.stringify(_, null, 2)\<close>, which does not throw on a
  value that came from \<^verbatim>\<open>JSON.parse\<close>.
\<close>

record Platform =
  numberToString :: "int \<Rightarrow> string"
  stringify :: "json \<Rightarrow> string"

text \<open>
  \<^verbatim>\<open>v.key\<close> on a value that is not null: \<open>None\<close> stands for undefined. Only an object
  has one of the property names the sources read (none of them is a property of a string,
  a number, a boolean or an array). A read on null throws; the callers below say where.
\<close>

fun getProp :: "json \<Rightarrow> string \<Rightarrow> json option" where
  "getProp (JObj kvs) key = map_of kvs key"
| "getProp v key = None"

text \<open>\<^verbatim>\<open>v?.key\<close>, on a value that may be undefined or null.\<close>

definition optProp :: "json option \<Rightarrow> string \<Rightarrow> json option" where
  "optProp v key = (case v of None \<Rightarrow> None | Some JNull \<Rightarrow> None | Some x \<Rightarrow> getProp x key)"

text \<open>\<^verbatim>\<open>v ?? d\<close>\<close>

definition nullish :: "json option \<Rightarrow> json \<Rightarrow> json" where
  "nullish v d = (case v of None \<Rightarrow> d | Some JNull \<Rightarrow> d | Some x \<Rightarrow> x)"

text \<open>
  The decimal digits of an integer: what \<open>numberToString\<close> gives for the integers that are
  exact as numbers, below \<open>2^53\<close> in magnitude. It stands for the parameter in the examples.
\<close>

definition intToString :: "int \<Rightarrow> string" where
  "intToString n = (if n < 0 then ''-'' @ natToString (nat (- n)) else natToString (nat n))"

text \<open>
  The platform of the examples: a number prints as the decimal digits of an integer, and no
  example reaches \<^verbatim>\<open>JSON.stringify\<close>, for which the empty string stands.
\<close>

definition examplePlatform :: Platform where
  "examplePlatform = \<lparr>numberToString = intToString, stringify = (\<lambda>v. [])\<rparr>"

text \<open>
  \<^verbatim>\<open>String(v)\<close>. A primitive value is converted. An object is converted by its
  \<^verbatim>\<open>toString\<close> method: the inherited one gives \<open>[object Object]\<close>; an object with a
  property of its own named \<open>toString\<close> has a value that is not callable there, and the
  inherited \<^verbatim>\<open>valueOf\<close> returns the object itself, so the conversion throws a TypeError.
  An array is its elements joined by commas, a null element printing as nothing and any
  other element converted in the same way, throwing if it throws.
\<close>

fun jsString :: "Platform \<Rightarrow> json \<Rightarrow> Exception + string"
  and jsStringElems :: "Platform \<Rightarrow> json list \<Rightarrow> Exception + string list" where
  "jsString js JNull = Inr ''null''"
| "jsString js (JBool b) = Inr (if b then ''true'' else ''false'')"
| "jsString js (JNum n) = Inr (numberToString js n)"
| "jsString js (JStr s) = Inr s"
| "jsString js (JArr xs) =
     (case jsStringElems js xs of Inl e \<Rightarrow> Inl e | Inr ss \<Rightarrow> Inr (join '','' ss))"
| "jsString js (JObj kvs) =
     (if map_of kvs ''toString'' \<noteq> None then Inl TypeError else Inr ''[object Object]'')"
| "jsStringElems js [] = Inr []"
| "jsStringElems js (x # xs) =
     (case (if x = JNull then Inr [] else jsString js x) of
        Inl e \<Rightarrow> Inl e
      | Inr s \<Rightarrow> (case jsStringElems js xs of Inl e \<Rightarrow> Inl e | Inr ss \<Rightarrow> Inr (s # ss)))"

text \<open>\<^verbatim>\<open>Boolean(v)\<close>, the truth value of a condition.\<close>

fun truthy :: "json option \<Rightarrow> bool" where
  "truthy None = False"
| "truthy (Some JNull) = False"
| "truthy (Some (JBool b)) = b"
| "truthy (Some (JNum n)) = (n \<noteq> 0)"
| "truthy (Some (JStr s)) = (s \<noteq> [])"
| "truthy (Some (JArr xs)) = True"
| "truthy (Some (JObj kvs)) = True"

text \<open>
  The white space \<^verbatim>\<open>trim()\<close> removes, among the code units below 256: tab, line feed,
  vertical tab, form feed, carriage return, space and the no-break space.
\<close>

definition isWhiteSpace :: "char \<Rightarrow> bool" where
  "isWhiteSpace c = (c \<in> {CHR 0x09, CHR 0x0A, CHR 0x0B, CHR 0x0C, CHR 0x0D, CHR 0x20, CHR 0xA0})"

text \<open>\<^verbatim>\<open>!s.trim()\<close>\<close>

definition isBlank :: "string \<Rightarrow> bool" where
  "isBlank s = list_all isWhiteSpace s"

section \<open>Tool results (src/acp/translate/pi-tools.ts)\<close>

text \<open>
  The callback of \<^verbatim>\<open>content.map\<close>: the text of a part of type \<open>text\<close>, and the empty string
  for any other part.
\<close>

definition partText :: "json \<Rightarrow> string" where
  "partText c =
     (if optProp (Some c) ''type'' = Some (JStr ''text'')
      then (case getProp c ''text'' of Some (JStr t) \<Rightarrow> t | _ \<Rightarrow> [])
      else [])"

text \<open>
  \<^verbatim>\<open>toolResultToText(result)\<close>. \<^verbatim>\<open>JSON.stringify\<close> does not throw here, so the \<^verbatim>\<open>catch\<close>
  branch is never taken.
\<close>

definition toolResultToText :: "Platform \<Rightarrow> json option \<Rightarrow> string" where
  "toolResultToText js result =
     (case result of
        None \<Rightarrow> []
      | Some r \<Rightarrow>
          if \<not> truthy (Some r) then []
          else
            (let texts = (case getProp r ''content'' of
                            Some (JArr cs) \<Rightarrow> filter (\<lambda>t. t \<noteq> []) (map partText cs)
                          | _ \<Rightarrow> [])
             in if texts \<noteq> [] then concat texts
                else (case optProp (optProp (Some r) ''details'') ''diff'' of
                        Some (JStr diff) \<Rightarrow> if \<not> isBlank diff then diff else stringify js r
                      | _ \<Rightarrow> stringify js r)))"

section \<open>The backend transport (class PiRpcProcess, pi-rpc/process)\<close>

datatype PiRpcCommand = prompt_command string | abort_command | get_state_command

text \<open>
  What a request promise is rejected with: the error of the exit handler, with the exit code
  and the signal (each \<open>None\<close> when null), or the error of a failed write.
\<close>

datatype TransportError =
    process_exited "int option" "string option"
  | write_failed string

text \<open>
  What the transport does to the outside, in the order it does it: it settles a request
  promise (promises are numbered as they are created), calls an event listener with a
  value, or writes a command with its id to the subprocess.
\<close>

datatype 'h Effect =
    resolve nat json
  | reject nat TransportError
  | invoke 'h json
  | stdin_write string PiRpcCommand

text \<open>
  The two fields of the class: \<open>pending\<close>, a \<^verbatim>\<open>Map\<close> in insertion order from request id to
  the promise's \<^verbatim>\<open>{resolve, reject}\<close>, and \<open>eventHandlers\<close>, the listeners in registration
  order (\<open>'h\<close> names a listener). \<open>promises\<close> counts the promises created and \<open>effects\<close>
  records the effects so far.
\<close>

record 'h PiRpcProcess =
  pending :: "(string \<times> nat) list"
  eventHandlers :: "'h list"
  promises :: nat
  effects :: "'h Effect list"

text \<open>The condition \<^verbatim>\<open>msg?.type === "response" && typeof msg.id === "string"\<close>, with the id.\<close>

definition responseId :: "json \<Rightarrow> string option" where
  "responseId msg =
     (if optProp (Some msg) ''type'' = Some (JStr ''response'')
      then (case getProp msg ''id'' of Some (JStr i) \<Rightarrow> Some i | _ \<Rightarrow> None)
      else None)"

text \<open>
  The loop \<^verbatim>\<open>for (const h of this.eventHandlers) h(msg)\<close>. A listener is a function of
  the caller's and may throw; \<open>throws\<close> is the set of the pairs of a listener and a value at
  which it does. The loop has no \<^verbatim>\<open>try\<close>: it ends at the first listener that throws. The
  result is the list of the listeners called, in order, and the listener whose exception
  ends the loop, if any.
\<close>

fun dispatch :: "('h \<times> json) set \<Rightarrow> 'h list \<Rightarrow> json \<Rightarrow> 'h list \<times> 'h option" where
  "dispatch throws [] msg = ([], None)"
| "dispatch throws (h # hs) msg =
     (if (h, msg) \<in> throws then ([h], Some h)
      else (case dispatch throws hs msg of (called, exn) \<Rightarrow> (h # called, exn)))"

text \<open>
  The listener of the \<^verbatim>\<open>line\<close> event. \<open>parse\<close> is \<^verbatim>\<open>JSON.parse\<close>, a parameter: \<open>None\<close> when
  it throws. The result is the listener whose exception leaves the handler uncaught, if
  any, and the transport afterwards.
\<close>

definition onLine ::
  "(string \<Rightarrow> json option) \<Rightarrow> ('h \<times> json) set \<Rightarrow> 'h PiRpcProcess \<Rightarrow> string
     \<Rightarrow> 'h option \<times> 'h PiRpcProcess" where
  "onLine parse throws p line =
     (if isBlank line then (None, p)
      else (case parse line of
              None \<Rightarrow> (None, p)
            | Some msg \<Rightarrow>
                (case responseId msg of
                   Some i \<Rightarrow>
                     (case map_of (pending p) i of
                        Some pr \<Rightarrow>
                          (None, p\<lparr>pending := AList.delete i (pending p),
                                   effects := effects p @ [resolve pr msg]\<rparr>)
                      | None \<Rightarrow> (None, p))
                 | None \<Rightarrow>
                     (case dispatch throws (eventHandlers p) msg of
                        (called, exn) \<Rightarrow>
                          (exn, p\<lparr>effects := effects p @ map (\<lambda>h. invoke h msg) called\<rparr>)))))"

text \<open>The listener of the \<^verbatim>\<open>exit\<close> event of the subprocess.\<close>

definition onExit :: "'h PiRpcProcess \<Rightarrow> int option \<Rightarrow> string option \<Rightarrow> 'h PiRpcProcess" where
  "onExit p code signal =
     (let err = process_exited code signal
      in p\<lparr>effects := effects p @ map (\<lambda>(i, pr). reject pr err) (pending p),
           pending := []\<rparr>)"

definition onEvent :: "'h PiRpcProcess \<Rightarrow> 'h \<Rightarrow> 'h PiRpcProcess" where
  "onEvent p handler = p\<lparr>eventHandlers := eventHandlers p @ [handler]\<rparr>"

text \<open>
  \<^verbatim>\<open>request(cmd)\<close>, with the id \<^verbatim>\<open>crypto.randomUUID()\<close> returns: the promise, and the process
  with the promise pending and the line written.
\<close>

definition request :: "'h PiRpcProcess \<Rightarrow> string \<Rightarrow> PiRpcCommand \<Rightarrow> nat \<times> 'h PiRpcProcess" where
  "request p ident cmd =
     (let pr = promises p
      in (pr, p\<lparr>promises := Suc pr,
                 pending := AList.update ident pr (pending p),
                 effects := effects p @ [stdin_write ident cmd]\<rparr>))"

text \<open>The callback of \<^verbatim>\<open>stdin.write\<close> of the request \<open>ident\<close> with promise \<open>pr\<close>, called with an error.\<close>

definition onWriteError :: "'h PiRpcProcess \<Rightarrow> string \<Rightarrow> nat \<Rightarrow> string \<Rightarrow> 'h PiRpcProcess" where
  "onWriteError p ident pr err =
     p\<lparr>pending := AList.delete ident (pending p),
       effects := effects p @ [reject pr (write_failed err)]\<rparr>"

section \<open>The session (src/acp/session.ts)\<close>

datatype StopReason = end_turn | cancelled | error

datatype ToolKind = kind_read | kind_edit | kind_execute | kind_other

definition toToolKind :: "string \<Rightarrow> ToolKind" where
  "toToolKind toolName =
     (if toolName = ''read'' then kind_read
      else if toolName = ''write'' \<or> toolName = ''edit'' then kind_edit
      else if toolName = ''bash'' then kind_execute
      else kind_other)"

datatype ToolCallStatus = status_pending | status_in_progress | status_completed | status_failed

text \<open>
  The session updates \<^verbatim>\<open>handlePiEvent\<close> emits:
  \<^item> \<open>agent_message_chunk text\<close>;
  \<^item> \<open>tool_call toolCallId title kind status rawInput\<close>;
  \<^item> \<open>tool_call_update toolCallId status content rawOutput\<close>, where \<open>content\<close> is \<open>Some text\<close>
    for the one text block the source builds and \<open>None\<close> for undefined.
  A raw value is \<open>None\<close> when it is undefined.
\<close>

datatype SessionUpdate =
    agent_message_chunk string
  | tool_call string string ToolKind ToolCallStatus "json option"
  | tool_call_update string ToolCallStatus "string option" "json option"

text \<open>A call of a method of \<^verbatim>\<open>this.proc\<close>.\<close>

datatype ProcCall = proc_prompt string "PiAttachment list" | proc_abort

text \<open>
  The two callbacks passed to \<^verbatim>\<open>flushEmits().finally\<close>: the one of the \<open>turn_end\<close> case and
  the one of the \<^verbatim>\<open>catch\<close> of \<^verbatim>\<open>proc.prompt\<close>.
\<close>

datatype Finalizer = on_turn_end | on_prompt_error

text \<open>
  The state of a session. \<open>cancelRequested\<close>, \<open>pendingTurn\<close> and \<open>currentToolCalls\<close> are the
  fields of the class; \<open>pendingTurn\<close> holds the number of the open turn's promise. The
  promise chain \<open>lastEmit\<close> is the list of the updates chained so far, in order, with two
  counters: \<open>started\<close> updates have been handed to \<^verbatim>\<open>conn.sessionUpdate\<close>, and for \<open>settled\<close>
  of them the returned promise has settled, so that the link of the chain is resolved. An
  entry \<open>(n, f)\<close> of \<open>finalizers\<close> is a callback \<open>f\<close> waiting for \<^verbatim>\<open>flushEmits()\<close>, which was
  called when the chain had \<open>n\<close> links. The rest records what the session has done:
  \<open>turnPromises\<close> counts the turn promises created, \<open>resolved\<close> lists the calls of a turn
  promise's \<^verbatim>\<open>resolve\<close>, \<open>procCalls\<close> the calls on the transport and \<open>connCalls\<close> the calls
  of \<^verbatim>\<open>conn.sessionUpdate\<close>. No code calls a turn promise's \<^verbatim>\<open>reject\<close>.
\<close>

record PiAcpSession =
  sessionId :: string
  fileCommands :: "FileSlashCommand list"
  cancelRequested :: bool
  pendingTurn :: "nat option"
  currentToolCalls :: "string set"
  lastEmit :: "SessionUpdate list"
  started :: nat
  settled :: nat
  finalizers :: "(nat \<times> Finalizer) list"
  turnPromises :: nat
  resolved :: "(nat \<times> StopReason) list"
  procCalls :: "ProcCall list"
  connCalls :: "(string \<times> SessionUpdate) list"

text \<open>The constructor.\<close>

definition newSession :: "string \<Rightarrow> FileSlashCommand list \<Rightarrow> PiAcpSession" where
  "newSession sid cmds =
     \<lparr>sessionId = sid, fileCommands = cmds, cancelRequested = False, pendingTurn = None,
      currentToolCalls = {}, lastEmit = [], started = 0, settled = 0, finalizers = [],
      turnPromises = 0, resolved = [], procCalls = [], connCalls = []\<rparr>"

text \<open>
  \<^verbatim>\<open>prompt(message, attachments)\<close>: the exception or the number of the turn promise it
  returns, and the session afterwards. The method is \<^verbatim>\<open>async\<close>: the \<^verbatim>\<open>throw\<close> of its first
  statement, which runs during the call, is the rejection of the promise the call returns.
\<close>

definition prompt ::
  "PiAcpSession \<Rightarrow> string \<Rightarrow> PiAttachment list \<Rightarrow> (Exception + nat) \<times> PiAcpSession" where
  "prompt s message attachments =
     (case pendingTurn s of
        Some t \<Rightarrow> (Inl (invalidRequest ''A prompt is already in progress''), s)
      | None \<Rightarrow>
          (let s1 = s\<lparr>cancelRequested := False\<rparr>;
               expandedMessage = expandSlashCommand message (fileCommands s1);
               t = turnPromises s1;
               s2 = s1\<lparr>pendingTurn := Some t, turnPromises := Suc t\<rparr>;
               s3 = s2\<lparr>procCalls := procCalls s2 @ [proc_prompt expandedMessage attachments]\<rparr>
           in (Inr t, s3)))"

definition cancel :: "PiAcpSession \<Rightarrow> PiAcpSession" where
  "cancel s = (let s1 = s\<lparr>cancelRequested := True\<rparr> in s1\<lparr>procCalls := procCalls s1 @ [proc_abort]\<rparr>)"

definition emit :: "PiAcpSession \<Rightarrow> SessionUpdate \<Rightarrow> PiAcpSession" where
  "emit s update = s\<lparr>lastEmit := lastEmit s @ [update]\<rparr>"

text \<open>
  \<^verbatim>\<open>void this.flushEmits().finally(f)\<close>: \<^verbatim>\<open>flushEmits\<close> awaits the chain as it is at the
  call, and \<open>f\<close> runs once that promise has settled.
\<close>

definition flushEmits_finally :: "PiAcpSession \<Rightarrow> Finalizer \<Rightarrow> PiAcpSession" where
  "flushEmits_finally s f = s\<lparr>finalizers := finalizers s @ [(length (lastEmit s), f)]\<rparr>"

text \<open>The \<^verbatim>\<open>catch\<close> callback of \<^verbatim>\<open>this.proc.prompt(...)\<close>: the promise of the request is rejected.\<close>

definition promptRejected :: "PiAcpSession \<Rightarrow> PiAcpSession" where
  "promptRejected s = flushEmits_finally s on_prompt_error"

text \<open>The body of the two \<^verbatim>\<open>finally\<close> callbacks.\<close>

definition finalize :: "Finalizer \<Rightarrow> PiAcpSession \<Rightarrow> PiAcpSession" where
  "finalize f s =
     (let reason = (case f of
                      on_turn_end \<Rightarrow> if cancelRequested s then cancelled else end_turn
                    | on_prompt_error \<Rightarrow> if cancelRequested s then cancelled else error);
          s1 = (case pendingTurn s of
                  Some t \<Rightarrow> s\<lparr>resolved := resolved s @ [(t, reason)]\<rparr>
                | None \<Rightarrow> s)
      in s1\<lparr>pendingTurn := None\<rparr>)"

text \<open>
  The local constants \<^verbatim>\<open>type\<close> and \<^verbatim>\<open>toolCallId\<close> of \<^verbatim>\<open>handlePiEvent\<close>, for an event that
  is not null: the string, or the exception of the conversion.
\<close>

definition eventType :: "Platform \<Rightarrow> json \<Rightarrow> Exception + string" where
  "eventType js ev = jsString js (nullish (getProp ev ''type'') (JStr []))"

definition eventToolCallId :: "Platform \<Rightarrow> json \<Rightarrow> Exception + string" where
  "eventToolCallId js ev = jsString js (nullish (getProp ev ''toolCallId'') (JStr []))"

text \<open>\<^verbatim>\<open>text ? [{type: 'content', content: {type: 'text', text}}] : undefined\<close>\<close>

definition textContent :: "string \<Rightarrow> string option" where
  "textContent t = (if t \<noteq> [] then Some t else None)"

text \<open>
  \<^verbatim>\<open>handlePiEvent(ev)\<close>. \<open>uuid\<close> is what \<^verbatim>\<open>crypto.randomUUID()\<close> returns if it is called.
  The first statement reads \<^verbatim>\<open>ev.type\<close>, which throws when the event is null, and converts
  it, which may throw; so may the conversions of \<^verbatim>\<open>toolCallId\<close> and \<^verbatim>\<open>toolName\<close>. Each of
  them comes before the first assignment of its case: an exception leaves the session as it
  was.
\<close>

definition handlePiEvent ::
  "Platform \<Rightarrow> string \<Rightarrow> PiAcpSession \<Rightarrow> json \<Rightarrow> Exception + PiAcpSession" where
  "handlePiEvent js uuid s ev =
     (if ev = JNull then Inl TypeError
      else
        (case eventType js ev of
           Inl e \<Rightarrow> Inl e
         | Inr type \<Rightarrow>
             if type = ''message_update'' then
               (let ame = getProp ev ''assistantMessageEvent''
                in if optProp ame ''type'' = Some (JStr ''text_delta'')
                   then (case optProp ame ''delta'' of
                           Some (JStr delta) \<Rightarrow> Inr (emit s (agent_message_chunk delta))
                         | _ \<Rightarrow> Inr s)
                   else Inr s)
             else if type = ''tool_execution_start'' then
               (case jsString js (nullish (getProp ev ''toolCallId'') (JStr uuid)) of
                  Inl e \<Rightarrow> Inl e
                | Inr toolCallId \<Rightarrow>
                    (case jsString js (nullish (getProp ev ''toolName'') (JStr ''tool'')) of
                       Inl e \<Rightarrow> Inl e
                     | Inr toolName \<Rightarrow>
                         (let args = getProp ev ''args'';
                              s1 = s\<lparr>currentToolCalls := insert toolCallId (currentToolCalls s)\<rparr>;
                              s2 = emit s1 (tool_call toolCallId toolName (toToolKind toolName)
                                              status_pending args);
                              s3 = emit s2 (tool_call_update toolCallId status_in_progress None None)
                          in Inr s3)))
             else if type = ''tool_execution_update'' then
               (case eventToolCallId js ev of
                  Inl e \<Rightarrow> Inl e
                | Inr toolCallId \<Rightarrow>
                    if toolCallId = [] then Inr s
                    else
                      (let partial = getProp ev ''partialResult'';
                           t = toolResultToText js partial
                       in Inr (emit s (tool_call_update toolCallId status_in_progress
                                         (textContent t) partial))))
             else if type = ''tool_execution_end'' then
               (case eventToolCallId js ev of
                  Inl e \<Rightarrow> Inl e
                | Inr toolCallId \<Rightarrow>
                    if toolCallId = [] then Inr s
                    else
                      (let result = getProp ev ''result'';
                           isError = truthy (getProp ev ''isError'');
                           t = toolResultToText js result;
                           s1 = emit s (tool_call_update toolCallId
                                          (if isError then status_failed else status_completed)
                                          (textContent t) result)
                       in Inr (s1\<lparr>currentToolCalls := currentToolCalls s1 - {toolCallId}\<rparr>)))
             else if type = ''turn_end'' then Inr (flushEmits_finally s on_turn_end)
             else Inr s))"

subsection \<open>The event loop\<close>

text \<open>
  What can happen to a session, one action at a time: a call of \<^verbatim>\<open>prompt\<close> or \<^verbatim>\<open>cancel\<close>,
  an event from the transport (with the identifier \<^verbatim>\<open>crypto.randomUUID()\<close> would return),
  the rejection of the promise of \<^verbatim>\<open>proc.prompt\<close>, and the three kinds of promise jobs:
  the next link of the chain calls \<^verbatim>\<open>conn.sessionUpdate\<close>; the promise it returned settles
  (\<open>True\<close> when fulfilled; a rejection is swallowed by the \<^verbatim>\<open>catch\<close> of \<^verbatim>\<open>emit\<close>); the \<open>i\<close>-th
  waiting \<^verbatim>\<open>finally\<close> callback runs.
\<close>

datatype Action =
    call_prompt string "PiAttachment list"
  | call_cancel
  | pi_event json string
  | prompt_rejected
  | deliver_start
  | deliver_end bool
  | run_finalizer nat

text \<open>
  A link of the chain runs only after the link before it has settled: deliveries are
  serialized.
\<close>

definition deliverStart :: "PiAcpSession \<Rightarrow> PiAcpSession option" where
  "deliverStart s =
     (if started s = settled s \<and> started s < length (lastEmit s)
      then Some (s\<lparr>connCalls := connCalls s @ [(sessionId s, lastEmit s ! started s)],
                  started := Suc (started s)\<rparr>)
      else None)"

definition deliverEnd :: "bool \<Rightarrow> PiAcpSession \<Rightarrow> PiAcpSession option" where
  "deliverEnd ok s =
     (if settled s < started s then Some (s\<lparr>settled := Suc (settled s)\<rparr>) else None)"

text \<open>
  The \<open>i\<close>-th waiting callback can run when the chain it awaits has settled: the \<open>n\<close> links
  it had when \<^verbatim>\<open>flushEmits\<close> was called.
\<close>

definition runFinalizer :: "nat \<Rightarrow> PiAcpSession \<Rightarrow> PiAcpSession option" where
  "runFinalizer i s =
     (if i < length (finalizers s) \<and> fst (finalizers s ! i) \<le> settled s
      then Some (finalize (snd (finalizers s ! i))
                   (s\<lparr>finalizers := take i (finalizers s) @ drop (Suc i) (finalizers s)\<rparr>))
      else None)"

text \<open>
  One action: \<open>None\<close> when it cannot happen in this state. A call that throws leaves the
  session as it was.
\<close>

fun step :: "Platform \<Rightarrow> PiAcpSession \<Rightarrow> Action \<Rightarrow> PiAcpSession option" where
  "step js s (call_prompt message attachments) = Some (snd (prompt s message attachments))"
| "step js s call_cancel = Some (cancel s)"
| "step js s (pi_event ev uuid) =
     (case handlePiEvent js uuid s ev of Inl e \<Rightarrow> Some s | Inr s' \<Rightarrow> Some s')"
| "step js s prompt_rejected = Some (promptRejected s)"
| "step js s deliver_start = deliverStart s"
| "step js s (deliver_end ok) = deliverEnd ok s"
| "step js s (run_finalizer i) = runFinalizer i s"

fun run :: "Platform \<Rightarrow> PiAcpSession \<Rightarrow> Action list \<Rightarrow> PiAcpSession option" where
  "run js s [] = Some s"
| "run js s (a # as) =
     (case step js s a of None \<Rightarrow> None | Some s' \<Rightarrow> run js s' as)"

text \<open>
  The actions that let every outstanding delivery finish: the one in flight, then each
  update not yet handed over.
\<close>

definition drain :: "PiAcpSession \<Rightarrow> Action list" where
  "drain s =
     (if settled s < started s then [deliver_end True] else [])
       @ concat (replicate (length (lastEmit s) - started s) [deliver_start, deliver_end True])"

text \<open>
  What holds of every session the constructor and the actions produce: at most one
  delivery is in flight, the updates handed to the connection are the first \<open>started\<close>
  links of the chain, in order and under the session's id, no callback waits for more than
  the chain holds, no turn promise is resolved twice, and the open turn's promise is one
  of those created and has not been resolved.
\<close>

definition wellFormed :: "PiAcpSession \<Rightarrow> bool" where
  "wellFormed s =
     (settled s \<le> started s \<and> started s \<le> Suc (settled s) \<and> started s \<le> length (lastEmit s) \<and>
      connCalls s = map (Pair (sessionId s)) (take (started s) (lastEmit s)) \<and>
      list_all (\<lambda>(n, f). n \<le> length (lastEmit s)) (finalizers s) \<and>
      list_all (\<lambda>(t, r). t < turnPromises s) (resolved s) \<and>
      distinct (map fst (resolved s)) \<and>
      (case pendingTurn s of
         None \<Rightarrow> True
       | Some t \<Rightarrow> t < turnPromises s \<and> list_all (\<lambda>(t', r). t' \<noteq> t) (resolved s)))"

text \<open>
  The kinds of action the statements below speak of: a delivery step, and an event that is
  a text delta: a \<open>message_update\<close> whose \<open>assistantMessageEvent\<close> has the type \<open>text_delta\<close>
  and a string \<open>delta\<close>.
\<close>

fun isDelivery :: "Action \<Rightarrow> bool" where
  "isDelivery deliver_start = True"
| "isDelivery (deliver_end ok) = True"
| "isDelivery a = False"

text \<open>What can happen at any time while a turn is open: a delivery step or a call of \<^verbatim>\<open>cancel\<close>.\<close>

definition background :: "Action \<Rightarrow> bool" where
  "background a = (isDelivery a \<or> a = call_cancel)"

definition textDelta :: "Platform \<Rightarrow> json \<Rightarrow> string option" where
  "textDelta js ev =
     (if eventType js ev = Inr ''message_update'' \<and>
         optProp (getProp ev ''assistantMessageEvent'') ''type'' = Some (JStr ''text_delta'')
      then (case optProp (getProp ev ''assistantMessageEvent'') ''delta'' of
              Some (JStr delta) \<Rightarrow> Some delta
            | _ \<Rightarrow> None)
      else None)"

fun actionDelta :: "Platform \<Rightarrow> Action \<Rightarrow> string option" where
  "actionDelta js (pi_event ev uuid) = textDelta js ev"
| "actionDelta js a = None"

text \<open>
  The actions that neither open a turn nor end one: a delivery step, a call of
  \<^verbatim>\<open>cancel\<close>, and an event of any type but \<open>turn_end\<close>.
\<close>

fun keepsTurnOpen :: "Platform \<Rightarrow> Action \<Rightarrow> bool" where
  "keepsTurnOpen js (pi_event ev uuid) = (eventType js ev \<noteq> Inr ''turn_end'')"
| "keepsTurnOpen js deliver_start = True"
| "keepsTurnOpen js (deliver_end ok) = True"
| "keepsTurnOpen js call_cancel = True"
| "keepsTurnOpen js a = False"

section \<open>Properties of the slash commands\<close>

lemma find_None_name:
  "n \<notin> name ` set cs \<Longrightarrow> find (\<lambda>c. name c = n) cs = None"
  by (induction cs) auto

lemma commandName_unknown_world: "commandName ''/unknown world'' = ''unknown''"
  by (simp add: commandName_def slice_def sliceFrom_def)

text \<open>
  C7. A text that does not start with the command prefix \<open>/\<close> is returned unchanged; a text
  whose leading command name (the characters after the slash, up to the first space) is the
  name of no catalog entry is returned unchanged; in particular \<open>/unknown world\<close> is returned
  as it is by every catalog with no entry named \<open>unknown\<close>.
\<close>

theorem expandSlashCommand_unknown_unchanged:
  "(\<not> startsWith text ''/'' \<longrightarrow> expandSlashCommand text catalog = text) \<and>
   (commandName text \<notin> name ` set catalog \<longrightarrow> expandSlashCommand text catalog = text) \<and>
   (''unknown'' \<notin> name ` set catalog \<longrightarrow>
      expandSlashCommand ''/unknown world'' catalog = ''/unknown world'')"
proof (intro conjI impI)
  assume "\<not> startsWith text ''/''"
  then show "expandSlashCommand text catalog = text"
    by (simp add: expandSlashCommand_def)
next
  assume "commandName text \<notin> name ` set catalog"
  then have "find (\<lambda>c. name c = commandName text) catalog = None"
    by (rule find_None_name)
  then show "expandSlashCommand text catalog = text"
    by (simp add: expandSlashCommand_def)
next
  assume "''unknown'' \<notin> name ` set catalog"
  then have "find (\<lambda>c. name c = commandName ''/unknown world'') catalog = None"
    unfolding commandName_unknown_world by (rule find_None_name)
  then show "expandSlashCommand ''/unknown world'' catalog = ''/unknown world''"
    by (simp add: expandSlashCommand_def)
qed

theorem expandSlashCommand_unknown_unchanged_witness:
  "expandSlashCommand ''not a command''
     [\<lparr>name = ''hello'', description = ''(user)'', content = ''Say hi to $1'', source = ''(user)''\<rparr>]
     = ''not a command'' \<and>
   expandSlashCommand ''/unknown world''
     [\<lparr>name = ''hello'', description = ''(user)'', content = ''Say hi to $1'', source = ''(user)''\<rparr>]
     = ''/unknown world''"
  using expandSlashCommand_unknown_unchanged
          [of "''not a command''"
              "[\<lparr>name = ''hello'', description = ''(user)'', content = ''Say hi to $1'',
                  source = ''(user)''\<rparr>]"]
        expandSlashCommand_unknown_unchanged
          [of "''/unknown world''"
              "[\<lparr>name = ''hello'', description = ''(user)'', content = ''Say hi to $1'',
                  source = ''(user)''\<rparr>]"]
  by simp

text \<open>The known command of the repository's unit test is expanded.\<close>

lemma expandSlashCommand_known_example:
  "expandSlashCommand ''/hello world''
     [\<lparr>name = ''hello'', description = ''(user)'', content = ''Say hi to $1'', source = ''(user)''\<rparr>]
     = ''Say hi to world''"
  by code_simp

text \<open>
  The example of the unit test: both positional references and \<^verbatim>\<open>$@\<close> are replaced, and a
  positional reference beyond the arguments gives the empty string.
\<close>

lemma substituteArgs_example:
  "substituteArgs ''x=$1 y=$2 all=$@'' [''one'', ''two''] = ''x=one y=two all=one two''"
  by code_simp

lemma substituteArgs_missing_example: "substituteArgs ''$3'' [''one''] = []"
  by code_simp

text \<open>
  C8. The body \<open>all=$@\<close> has one occurrence of \<^verbatim>\<open>$@\<close> and no positional reference, so with
  the arguments \<open>$2\<close> and \<open>two\<close> replacing the placeholders of the body gives \<open>all=$2 two\<close>.
  The function runs two passes, and the second pass reads the text the first one has
  inserted: it replaces the \<open>$2\<close> that came from the first argument by the second
  argument. The result is \<open>all=two two\<close>.
\<close>

theorem substituteArgs_rereads_inserted_arguments:
  "substituteArgs ''all=$@'' [''$2'', ''two''] = ''all=two two''"
  by code_simp

text \<open>
  The first pass also reads the joined arguments as a replacement template: an argument
  \<open>$$\<close> is inserted as a single dollar sign.
\<close>

lemma substituteArgs_template_example:
  "substituteArgs ''all=$@'' [''$$'', ''two''] = ''all=$ two''"
  by code_simp

section \<open>Properties of the prompt translation\<close>

lemma promptToPiMessage_step_message:
  "fst (promptToPiMessage_step B U (m, a, k) b) = fst (promptToPiMessage_step B U (m, a', k') b)"
  by (cases b) (simp_all add: Let_def split: option.splits)

lemma promptToPiMessage_loop_message:
  "fst (foldl (promptToPiMessage_step B U) (m, a, k) bs) =
   fst (foldl (promptToPiMessage_step B U) (m, a', k') bs)"
proof (induction bs arbitrary: m a k a' k')
  case Nil
  show ?case by simp
next
  case (Cons b bs)
  obtain m1 a1 k1 where s1: "promptToPiMessage_step B U (m, a, k) b = (m1, a1, k1)"
    by (cases "promptToPiMessage_step B U (m, a, k) b") auto
  obtain m2 a2 k2 where s2: "promptToPiMessage_step B U (m, a', k') b = (m2, a2, k2)"
    by (cases "promptToPiMessage_step B U (m, a', k') b") auto
  have "m1 = m2"
    using promptToPiMessage_step_message [of B U m a k b a' k'] s1 s2 by simp
  then show ?case
    using Cons.IH [of m1 a1 k1 a2 k2] s1 s2 by simp
qed

lemma promptToPiMessage_step_attachments:
  "\<exists>m' a' k'. promptToPiMessage_step B U (m, a, k) b = (m', a @ a', k')"
  by (cases b) (simp_all add: Let_def split: option.splits)

lemma promptToPiMessage_loop_attachments:
  "\<exists>m' a' k'. foldl (promptToPiMessage_step B U) (m, a, k) bs = (m', a @ a', k')"
proof (induction bs arbitrary: m a k)
  case Nil
  show ?case by simp
next
  case (Cons b bs)
  obtain m1 a1 k1 where s1: "promptToPiMessage_step B U (m, a, k) b = (m1, a @ a1, k1)"
    using promptToPiMessage_step_attachments [of B U m a k b] by blast
  obtain m2 a2 k2 where
    s2: "foldl (promptToPiMessage_step B U) (m1, a @ a1, k1) bs = (m2, (a @ a1) @ a2, k2)"
    using Cons.IH [of m1 "a @ a1" k1] by blast
  show ?case
    using s1 s2 by simp
qed

lemma promptToPiMessage_fst:
  "fst (promptToPiMessage B U bs) = fst (foldl (promptToPiMessage_step B U) ([], [], 0) bs)"
  by (simp add: promptToPiMessage_def split: prod.splits)

lemma promptToPiMessage_snd:
  "snd (promptToPiMessage B U bs) = fst (snd (foldl (promptToPiMessage_step B U) ([], [], 0) bs))"
  by (simp add: promptToPiMessage_def split: prod.splits)

lemma promptToPiMessage_image_message:
  "fst (promptToPiMessage B U (bs @ ImageBlock d mime u # cs)) = fst (promptToPiMessage B U (bs @ cs))"
proof -
  obtain m a k where pre: "foldl (promptToPiMessage_step B U) ([], [], 0) bs = (m, a, k)"
    by (cases "foldl (promptToPiMessage_step B U) ([], [], 0) bs") auto
  obtain a1 k1 where img: "promptToPiMessage_step B U (m, a, k) (ImageBlock d mime u) = (m, a1, k1)"
    by (simp add: Let_def)
  have "fst (foldl (promptToPiMessage_step B U) (m, a1, k1) cs) =
        fst (foldl (promptToPiMessage_step B U) (m, a, k) cs)"
    by (rule promptToPiMessage_loop_message)
  then show ?thesis
    using pre img by (simp add: promptToPiMessage_fst)
qed

lemma promptToPiMessage_image_attachment:
  "\<exists>as2 i.
     snd (promptToPiMessage B U (bs @ ImageBlock d mime u # cs)) =
       snd (promptToPiMessage B U bs) @
       \<lparr>id' = i, type' = image', fileName = guessFileNameFromMime mime, mimeType = mime,
         size' = B d, content' = d, extractedText = None, preview = None\<rparr> # as2"
proof -
  obtain m a k where pre: "foldl (promptToPiMessage_step B U) ([], [], 0) bs = (m, a, k)"
    by (cases "foldl (promptToPiMessage_step B U) ([], [], 0) bs") auto
  define att where
    "att = \<lparr>id' = (case u of Some x \<Rightarrow> x | None \<Rightarrow> U k), type' = image',
             fileName = guessFileNameFromMime mime, mimeType = mime,
             size' = B d, content' = d, extractedText = None, preview = None\<rparr>"
  obtain k1 where img:
    "promptToPiMessage_step B U (m, a, k) (ImageBlock d mime u) = (m, a @ [att], k1)"
    by (simp add: Let_def att_def)
  obtain m2 a2 k2 where post:
    "foldl (promptToPiMessage_step B U) (m, a @ [att], k1) cs = (m2, (a @ [att]) @ a2, k2)"
    using promptToPiMessage_loop_attachments [of B U m "a @ [att]" k1 cs] by blast
  have "snd (promptToPiMessage B U (bs @ ImageBlock d mime u # cs)) = a @ att # a2"
    using pre img post by (simp add: promptToPiMessage_snd)
  moreover have "snd (promptToPiMessage B U bs) = a"
    using pre by (simp add: promptToPiMessage_snd)
  ultimately show ?thesis
    unfolding att_def by blast
qed

lemma guessFileNameFromMime_cases:
  "guessFileNameFromMime mime =
     (if mime = ''image/png'' then ''attachment.png''
      else if mime = ''image/jpeg'' then ''attachment.jpg''
      else if mime = ''image/webp'' then ''attachment.webp''
      else ''attachment.bin'')"
  by (simp add: guessFileNameFromMime_def)

lemma promptToPiMessage_single_image:
  "promptToPiMessage B U [ImageBlock d mime u] =
     ([], [\<lparr>id' = (case u of Some x \<Rightarrow> x | None \<Rightarrow> U 0), type' = image',
            fileName = guessFileNameFromMime mime, mimeType = mime,
            size' = B d, content' = d, extractedText = None, preview = None\<rparr>])"
  by (simp add: promptToPiMessage_def Let_def)

text \<open>
  C9. An image block becomes one attachment, placed after the attachments of the blocks
  before it: its size is the byte length of the base64 payload once decoded (what
  \<open>byteLength\<close> gives), its file name is inferred from the media type (\<open>attachment.png\<close> for
  \<open>image/png\<close>, \<open>attachment.jpg\<close> for \<open>image/jpeg\<close>, \<open>attachment.webp\<close> for \<open>image/webp\<close> and
  \<open>attachment.bin\<close> for any other type), its content is the base64 string itself, and the
  message text is the one of the blocks without the image. In particular a payload of 3
  decoded bytes of type \<open>image/png\<close> gives the size 3 and the file name \<open>attachment.png\<close>.
\<close>

theorem promptToPiMessage_image:
  "(\<exists>as2 i.
      snd (promptToPiMessage byteLength randomUUID (bs @ ImageBlock d mime u # cs)) =
        snd (promptToPiMessage byteLength randomUUID bs) @
        \<lparr>id' = i, type' = image',
          fileName = (if mime = ''image/png'' then ''attachment.png''
                      else if mime = ''image/jpeg'' then ''attachment.jpg''
                      else if mime = ''image/webp'' then ''attachment.webp''
                      else ''attachment.bin''),
          mimeType = mime, size' = byteLength d, content' = d,
          extractedText = None, preview = None\<rparr> # as2) \<and>
   fst (promptToPiMessage byteLength randomUUID (bs @ ImageBlock d mime u # cs)) =
     fst (promptToPiMessage byteLength randomUUID (bs @ cs)) \<and>
   promptToPiMessage byteLength randomUUID [ImageBlock d mime u] =
     ([], [\<lparr>id' = (case u of Some x \<Rightarrow> x | None \<Rightarrow> randomUUID 0), type' = image',
            fileName = (if mime = ''image/png'' then ''attachment.png''
                        else if mime = ''image/jpeg'' then ''attachment.jpg''
                        else if mime = ''image/webp'' then ''attachment.webp''
                        else ''attachment.bin''),
            mimeType = mime, size' = byteLength d, content' = d,
            extractedText = None, preview = None\<rparr>]) \<and>
   guessFileNameFromMime ''image/png'' = ''attachment.png'' \<and>
   (byteLength d = 3 \<longrightarrow>
      promptToPiMessage byteLength randomUUID [ImageBlock d ''image/png'' u] =
        ([], [\<lparr>id' = (case u of Some x \<Rightarrow> x | None \<Rightarrow> randomUUID 0), type' = image',
               fileName = ''attachment.png'', mimeType = ''image/png'',
               size' = 3, content' = d, extractedText = None, preview = None\<rparr>]))"
proof (intro conjI impI)
  show "\<exists>as2 i.
      snd (promptToPiMessage byteLength randomUUID (bs @ ImageBlock d mime u # cs)) =
        snd (promptToPiMessage byteLength randomUUID bs) @
        \<lparr>id' = i, type' = image',
          fileName = (if mime = ''image/png'' then ''attachment.png''
                      else if mime = ''image/jpeg'' then ''attachment.jpg''
                      else if mime = ''image/webp'' then ''attachment.webp''
                      else ''attachment.bin''),
          mimeType = mime, size' = byteLength d, content' = d,
          extractedText = None, preview = None\<rparr> # as2"
    using promptToPiMessage_image_attachment [of byteLength randomUUID bs d mime u cs]
    unfolding guessFileNameFromMime_cases .
  show "fst (promptToPiMessage byteLength randomUUID (bs @ ImageBlock d mime u # cs)) =
     fst (promptToPiMessage byteLength randomUUID (bs @ cs))"
    by (rule promptToPiMessage_image_message)
  show "promptToPiMessage byteLength randomUUID [ImageBlock d mime u] =
     ([], [\<lparr>id' = (case u of Some x \<Rightarrow> x | None \<Rightarrow> randomUUID 0), type' = image',
            fileName = (if mime = ''image/png'' then ''attachment.png''
                        else if mime = ''image/jpeg'' then ''attachment.jpg''
                        else if mime = ''image/webp'' then ''attachment.webp''
                        else ''attachment.bin''),
            mimeType = mime, size' = byteLength d, content' = d,
            extractedText = None, preview = None\<rparr>])"
    using promptToPiMessage_single_image [of byteLength randomUUID d mime u]
    unfolding guessFileNameFromMime_cases .
  show "guessFileNameFromMime ''image/png'' = ''attachment.png''"
    by (simp add: guessFileNameFromMime_def)
next
  assume "byteLength d = 3"
  then show "promptToPiMessage byteLength randomUUID [ImageBlock d ''image/png'' u] =
        ([], [\<lparr>id' = (case u of Some x \<Rightarrow> x | None \<Rightarrow> randomUUID 0), type' = image',
               fileName = ''attachment.png'', mimeType = ''image/png'',
               size' = 3, content' = d, extractedText = None, preview = None\<rparr>])"
    by (simp add: promptToPiMessage_single_image guessFileNameFromMime_def)
qed

text \<open>
  The image of the repository's unit test, \<open>YWJj\<close>, the base64 form of the 3 bytes \<open>abc\<close>,
  and a second image of type \<open>image/jpeg\<close> with no uri, \<open>YWJjZA==\<close>, the base64 form of the
  4 bytes \<open>abcd\<close>.
\<close>

lemma base64ByteLength_example: "base64ByteLength ''YWJj'' = 3"
  by (simp add: base64ByteLength_def)

lemma base64ByteLength_padded_example: "base64ByteLength ''YWJjZA=='' = 4"
  by (simp add: base64ByteLength_def)

theorem promptToPiMessage_image_witness:
  "base64ByteLength ''YWJj'' = 3 \<and>
   promptToPiMessage base64ByteLength natToString [ImageBlock ''YWJj'' ''image/png'' (Some ''img-1'')] =
     ([], [\<lparr>id' = ''img-1'', type' = image', fileName = ''attachment.png'', mimeType = ''image/png'',
            size' = 3, content' = ''YWJj'', extractedText = None, preview = None\<rparr>]) \<and>
   fst (promptToPiMessage base64ByteLength natToString
          ([TextBlock ''see''] @ ImageBlock ''YWJj'' ''image/png'' (Some ''img-1'') # [])) = ''see'' \<and>
   promptToPiMessage base64ByteLength natToString [ImageBlock ''YWJjZA=='' ''image/jpeg'' None] =
     ([], [\<lparr>id' = ''0'', type' = image', fileName = ''attachment.jpg'', mimeType = ''image/jpeg'',
            size' = 4, content' = ''YWJjZA=='', extractedText = None, preview = None\<rparr>]) \<and>
   promptToPiMessage base64ByteLength natToString [ImageBlock ''YWJj'' ''image/gif'' (Some ''g'')] =
     ([], [\<lparr>id' = ''g'', type' = image', fileName = ''attachment.bin'', mimeType = ''image/gif'',
            size' = 3, content' = ''YWJj'', extractedText = None, preview = None\<rparr>])"
proof -
  have len: "base64ByteLength ''YWJj'' = 3"
    by (rule base64ByteLength_example)
  have len4: "base64ByteLength ''YWJjZA=='' = 4"
    by (rule base64ByteLength_padded_example)
  have u0: "natToString 0 = ''0''"
    by code_simp
  have msg: "fst (promptToPiMessage base64ByteLength natToString ([TextBlock ''see''] @ [])) = ''see''"
    by (simp add: promptToPiMessage_def)
  show ?thesis
    using len len4 u0 msg
      promptToPiMessage_image [of base64ByteLength natToString "[TextBlock ''see'']"
        "''YWJj''" "''image/png''" "Some ''img-1''" "[]"]
      promptToPiMessage_image [of base64ByteLength natToString "[]"
        "''YWJjZA==''" "''image/jpeg''" None "[]"]
      promptToPiMessage_image [of base64ByteLength natToString "[]"
        "''YWJj''" "''image/gif''" "Some ''g''" "[]"]
    by simp
qed

section \<open>Properties of the transport\<close>

lemma responseId_Some_iff:
  "responseId msg = Some i \<longleftrightarrow>
     optProp (Some msg) ''type'' = Some (JStr ''response'') \<and> getProp msg ''id'' = Some (JStr i)"
  by (auto simp: responseId_def split: option.splits json.splits)

lemma responseId_None_iff:
  "responseId msg = None \<longleftrightarrow>
     \<not> (optProp (Some msg) ''type'' = Some (JStr ''response'') \<and>
        (\<exists>i. getProp msg ''id'' = Some (JStr i)))"
  by (auto simp: responseId_def split: option.splits json.splits)

lemma dispatch_called:
  "fst (dispatch throws hs msg) =
     takeWhile (\<lambda>h. (h, msg) \<notin> throws) hs @ take 1 (dropWhile (\<lambda>h. (h, msg) \<notin> throws) hs)"
  by (induction hs) (auto split: prod.splits)

lemma dispatch_exception:
  "snd (dispatch throws hs msg) = List.find (\<lambda>h. (h, msg) \<in> throws) hs"
  by (induction hs) (auto split: prod.splits)

lemma dispatch_no_exception:
  "list_all (\<lambda>h. (h, msg) \<notin> throws) hs \<Longrightarrow> dispatch throws hs msg = (hs, None)"
  by (induction hs) auto

lemma onLine_event:
  assumes "\<not> isBlank line" and "parse line = Some msg" and "responseId msg = None"
  shows "onLine parse throws p line =
     (List.find (\<lambda>h. (h, msg) \<in> throws) (eventHandlers p),
      p\<lparr>effects := effects p @
           map (\<lambda>h. invoke h msg)
             (takeWhile (\<lambda>h. (h, msg) \<notin> throws) (eventHandlers p) @
              take 1 (dropWhile (\<lambda>h. (h, msg) \<notin> throws) (eventHandlers p)))\<rparr>)"
proof -
  obtain called exn where d: "dispatch throws (eventHandlers p) msg = (called, exn)"
    by (cases "dispatch throws (eventHandlers p) msg") auto
  have c: "called = takeWhile (\<lambda>h. (h, msg) \<notin> throws) (eventHandlers p) @
                    take 1 (dropWhile (\<lambda>h. (h, msg) \<notin> throws) (eventHandlers p))"
    using dispatch_called [of throws "eventHandlers p" msg] d by simp
  have e: "exn = List.find (\<lambda>h. (h, msg) \<in> throws) (eventHandlers p)"
    using dispatch_exception [of throws "eventHandlers p" msg] d by simp
  have "onLine parse throws p line =
          (exn, p\<lparr>effects := effects p @ map (\<lambda>h. invoke h msg) called\<rparr>)"
    using assms d by (simp add: onLine_def)
  then show ?thesis
    unfolding c e .
qed

lemma onLine_event_no_exception:
  assumes "\<not> isBlank line" and "parse line = Some msg" and "responseId msg = None"
    and "list_all (\<lambda>h. (h, msg) \<notin> throws) (eventHandlers p)"
  shows "onLine parse throws p line =
           (None, p\<lparr>effects := effects p @ map (\<lambda>h. invoke h msg) (eventHandlers p)\<rparr>)"
  using assms dispatch_no_exception [of msg throws "eventHandlers p"]
  by (simp add: onLine_def)

text \<open>
  C5, as amended. Of a line that is not blank and parses: when it has the response shape
  (type \<open>response\<close> and a string id) and its id is the id of no pending request, it is
  dropped, the transport is as it was and no listener is called; when it has the response
  shape and its id is pending, that request's promise is resolved with the value and the
  id retired, and no listener is called; when it has not the response shape, the
  registered listeners are called with the value as parsed, in registration order, up to
  and including the first one that throws: the listeners after it are not called, and its
  exception leaves the line handler. When no listener throws at the value, every
  registered listener is called.
\<close>

theorem onLine_parsed:
  "\<not> isBlank line \<Longrightarrow> parse line = Some msg \<Longrightarrow>
   (optProp (Some msg) ''type'' = Some (JStr ''response'') \<and> getProp msg ''id'' = Some (JStr i) \<and>
    map_of (pending p) i = None \<longrightarrow> onLine parse throws p line = (None, p)) \<and>
   (optProp (Some msg) ''type'' = Some (JStr ''response'') \<and> getProp msg ''id'' = Some (JStr i) \<and>
    map_of (pending p) i = Some pr \<longrightarrow>
      onLine parse throws p line =
        (None, p\<lparr>pending := AList.delete i (pending p), effects := effects p @ [resolve pr msg]\<rparr>)) \<and>
   (\<not> (optProp (Some msg) ''type'' = Some (JStr ''response'') \<and>
       (\<exists>j. getProp msg ''id'' = Some (JStr j))) \<longrightarrow>
      onLine parse throws p line =
        (List.find (\<lambda>h. (h, msg) \<in> throws) (eventHandlers p),
         p\<lparr>effects := effects p @
              map (\<lambda>h. invoke h msg)
                (takeWhile (\<lambda>h. (h, msg) \<notin> throws) (eventHandlers p) @
                 take 1 (dropWhile (\<lambda>h. (h, msg) \<notin> throws) (eventHandlers p)))\<rparr>)) \<and>
   (\<not> (optProp (Some msg) ''type'' = Some (JStr ''response'') \<and>
       (\<exists>j. getProp msg ''id'' = Some (JStr j))) \<and>
    list_all (\<lambda>h. (h, msg) \<notin> throws) (eventHandlers p) \<longrightarrow>
      onLine parse throws p line =
        (None, p\<lparr>effects := effects p @ map (\<lambda>h. invoke h msg) (eventHandlers p)\<rparr>))"
proof (intro conjI impI)
  assume nb: "\<not> isBlank line" and ps: "parse line = Some msg"
  {
    assume "optProp (Some msg) ''type'' = Some (JStr ''response'') \<and>
            getProp msg ''id'' = Some (JStr i) \<and> map_of (pending p) i = None"
    then have "responseId msg = Some i" and "map_of (pending p) i = None"
      by (simp_all add: responseId_Some_iff)
    then show "onLine parse throws p line = (None, p)"
      using nb ps by (simp add: onLine_def)
  next
    assume "optProp (Some msg) ''type'' = Some (JStr ''response'') \<and>
            getProp msg ''id'' = Some (JStr i) \<and> map_of (pending p) i = Some pr"
    then have "responseId msg = Some i" and "map_of (pending p) i = Some pr"
      by (simp_all add: responseId_Some_iff)
    then show "onLine parse throws p line =
        (None, p\<lparr>pending := AList.delete i (pending p), effects := effects p @ [resolve pr msg]\<rparr>)"
      using nb ps by (simp add: onLine_def)
  next
    assume "\<not> (optProp (Some msg) ''type'' = Some (JStr ''response'') \<and>
       (\<exists>j. getProp msg ''id'' = Some (JStr j)))"
    then have "responseId msg = None"
      by (simp add: responseId_None_iff)
    from onLine_event [of line parse msg throws p, OF nb ps this]
    show "onLine parse throws p line =
        (List.find (\<lambda>h. (h, msg) \<in> throws) (eventHandlers p),
         p\<lparr>effects := effects p @
              map (\<lambda>h. invoke h msg)
                (takeWhile (\<lambda>h. (h, msg) \<notin> throws) (eventHandlers p) @
                 take 1 (dropWhile (\<lambda>h. (h, msg) \<notin> throws) (eventHandlers p)))\<rparr>)" .
  next
    assume "\<not> (optProp (Some msg) ''type'' = Some (JStr ''response'') \<and>
       (\<exists>j. getProp msg ''id'' = Some (JStr j))) \<and>
       list_all (\<lambda>h. (h, msg) \<notin> throws) (eventHandlers p)"
    then have "responseId msg = None" and "list_all (\<lambda>h. (h, msg) \<notin> throws) (eventHandlers p)"
      by (simp_all add: responseId_None_iff)
    from onLine_event_no_exception [of line parse msg throws p, OF nb ps this]
    show "onLine parse throws p line =
        (None, p\<lparr>effects := effects p @ map (\<lambda>h. invoke h msg) (eventHandlers p)\<rparr>)" .
  }
qed

text \<open>
  A parsed line that is not a response is not dispatched to every registered listener.
  The transport has two listeners, and the first throws at the value \<open>null\<close>, as the
  listener a session registers does: \<^verbatim>\<open>handlePiEvent\<close> reads \<^verbatim>\<open>ev.type\<close>. The line \<open>null\<close>
  parses to that value; the first listener is called, its exception leaves the line
  handler, and the second listener is never called.
\<close>

theorem onLine_listener_exception_ends_dispatch:
  "onLine [''null'' \<mapsto> JNull] {(1 :: nat, JNull)}
     \<lparr>pending = [], eventHandlers = [1, 2], promises = 0, effects = []\<rparr> ''null''
   = (Some 1, \<lparr>pending = [], eventHandlers = [1, 2], promises = 0, effects = [invoke 1 JNull]\<rparr>) \<and>
   handlePiEvent examplePlatform ''id-0'' (newSession ''s1'' []) JNull = Inl TypeError"
  by (simp add: onLine_def isBlank_def isWhiteSpace_def responseId_def optProp_def handlePiEvent_def)

theorem onLine_parsed_witness:
  "onLine [''{\"type\":\"response\",\"id\":\"r9\"}'' \<mapsto> JObj [(''type'', JStr ''response''), (''id'', JStr ''r9'')]]
     {}
     \<lparr>pending = [(''r1'', 0)], eventHandlers = [1 :: nat, 2], promises = 1, effects = []\<rparr>
     ''{\"type\":\"response\",\"id\":\"r9\"}''
   = (None, \<lparr>pending = [(''r1'', 0)], eventHandlers = [1 :: nat, 2], promises = 1, effects = []\<rparr>) \<and>
   onLine [''{\"type\":\"response\",\"id\":\"r1\"}'' \<mapsto> JObj [(''type'', JStr ''response''), (''id'', JStr ''r1'')]]
     {}
     \<lparr>pending = [(''r1'', 0)], eventHandlers = [1 :: nat, 2], promises = 1, effects = []\<rparr>
     ''{\"type\":\"response\",\"id\":\"r1\"}''
   = (None, \<lparr>pending = [], eventHandlers = [1 :: nat, 2], promises = 1,
              effects = [resolve 0 (JObj [(''type'', JStr ''response''), (''id'', JStr ''r1'')])]\<rparr>) \<and>
   onLine [''{\"type\":\"turn_end\"}'' \<mapsto> JObj [(''type'', JStr ''turn_end'')]]
     {}
     \<lparr>pending = [(''r1'', 0)], eventHandlers = [1 :: nat, 2], promises = 1, effects = []\<rparr>
     ''{\"type\":\"turn_end\"}''
   = (None, \<lparr>pending = [(''r1'', 0)], eventHandlers = [1 :: nat, 2], promises = 1,
              effects = [invoke 1 (JObj [(''type'', JStr ''turn_end'')]),
                         invoke 2 (JObj [(''type'', JStr ''turn_end'')])]\<rparr>) \<and>
   onLine [''{\"type\":\"turn_end\"}'' \<mapsto> JObj [(''type'', JStr ''turn_end'')]]
     {(2, JObj [(''type'', JStr ''turn_end'')])}
     \<lparr>pending = [(''r1'', 0)], eventHandlers = [1 :: nat, 2, 3], promises = 1, effects = []\<rparr>
     ''{\"type\":\"turn_end\"}''
   = (Some 2, \<lparr>pending = [(''r1'', 0)], eventHandlers = [1 :: nat, 2, 3], promises = 1,
                effects = [invoke 1 (JObj [(''type'', JStr ''turn_end'')]),
                           invoke 2 (JObj [(''type'', JStr ''turn_end'')])]\<rparr>)"
proof -
  have b1: "\<not> isBlank ''{\"type\":\"response\",\"id\":\"r9\"}''"
    by (simp add: isBlank_def isWhiteSpace_def)
  have b2: "\<not> isBlank ''{\"type\":\"turn_end\"}''"
    by (simp add: isBlank_def isWhiteSpace_def)
  have b3: "\<not> isBlank ''{\"type\":\"response\",\"id\":\"r1\"}''"
    by (simp add: isBlank_def isWhiteSpace_def)
  show ?thesis
    using onLine_parsed [OF b1, of
            "[''{\"type\":\"response\",\"id\":\"r9\"}'' \<mapsto>
                JObj [(''type'', JStr ''response''), (''id'', JStr ''r9'')]]"
            "JObj [(''type'', JStr ''response''), (''id'', JStr ''r9'')]" "''r9''"
            "\<lparr>pending = [(''r1'', 0)], eventHandlers = [1 :: nat, 2], promises = 1, effects = []\<rparr>"
            "{}" 0]
          onLine_parsed [OF b3, of
            "[''{\"type\":\"response\",\"id\":\"r1\"}'' \<mapsto>
                JObj [(''type'', JStr ''response''), (''id'', JStr ''r1'')]]"
            "JObj [(''type'', JStr ''response''), (''id'', JStr ''r1'')]" "''r1''"
            "\<lparr>pending = [(''r1'', 0)], eventHandlers = [1 :: nat, 2], promises = 1, effects = []\<rparr>"
            "{}" 0]
          onLine_parsed [OF b2, of
            "[''{\"type\":\"turn_end\"}'' \<mapsto> JObj [(''type'', JStr ''turn_end'')]]"
            "JObj [(''type'', JStr ''turn_end'')]" "''x''"
            "\<lparr>pending = [(''r1'', 0)], eventHandlers = [1 :: nat, 2], promises = 1, effects = []\<rparr>"
            "{}" 0]
          onLine_parsed [OF b2, of
            "[''{\"type\":\"turn_end\"}'' \<mapsto> JObj [(''type'', JStr ''turn_end'')]]"
            "JObj [(''type'', JStr ''turn_end'')]" "''x''"
            "\<lparr>pending = [(''r1'', 0)], eventHandlers = [1 :: nat, 2, 3], promises = 1, effects = []\<rparr>"
            "{(2, JObj [(''type'', JStr ''turn_end'')])}" 0]
    by (simp add: optProp_def)
qed

text \<open>
  C6, as amended. When the subprocess exits, the promise of every pending request is
  rejected with the error of the exit, in the order of the requests, the pending set
  becomes empty, and the exit handler calls no listener and leaves the listeners
  registered. A line read after the exit is handled as any other line: with the response
  shape it is dropped, since nothing is pending, and otherwise the listeners are called
  with its value, in registration order, up to and including the first one that throws;
  every listener, when none throws.
\<close>

theorem onExit_rejects_pending:
  "pending (onExit p code signal) = [] \<and>
   effects (onExit p code signal) =
     effects p @ map (\<lambda>(i, pr). reject pr (process_exited code signal)) (pending p) \<and>
   eventHandlers (onExit p code signal) = eventHandlers p \<and>
   (\<not> isBlank line \<and> parse line = Some msg \<and>
    optProp (Some msg) ''type'' = Some (JStr ''response'') \<and> getProp msg ''id'' = Some (JStr i) \<longrightarrow>
      onLine parse throws (onExit p code signal) line = (None, onExit p code signal)) \<and>
   (\<not> isBlank line \<and> parse line = Some msg \<and>
    \<not> (optProp (Some msg) ''type'' = Some (JStr ''response'') \<and>
       (\<exists>j. getProp msg ''id'' = Some (JStr j))) \<longrightarrow>
      onLine parse throws (onExit p code signal) line =
        (List.find (\<lambda>h. (h, msg) \<in> throws) (eventHandlers p),
         (onExit p code signal)
           \<lparr>effects := effects (onExit p code signal) @
              map (\<lambda>h. invoke h msg)
                (takeWhile (\<lambda>h. (h, msg) \<notin> throws) (eventHandlers p) @
                 take 1 (dropWhile (\<lambda>h. (h, msg) \<notin> throws) (eventHandlers p)))\<rparr>)) \<and>
   (\<not> isBlank line \<and> parse line = Some msg \<and>
    \<not> (optProp (Some msg) ''type'' = Some (JStr ''response'') \<and>
       (\<exists>j. getProp msg ''id'' = Some (JStr j))) \<and>
    list_all (\<lambda>h. (h, msg) \<notin> throws) (eventHandlers p) \<longrightarrow>
      effects (snd (onLine parse throws (onExit p code signal) line)) =
        effects (onExit p code signal) @ map (\<lambda>h. invoke h msg) (eventHandlers p))"
proof -
  have e1: "pending (onExit p code signal) = []"
    by (simp add: onExit_def Let_def)
  have e2: "effects (onExit p code signal) =
     effects p @ map (\<lambda>(i, pr). reject pr (process_exited code signal)) (pending p)"
    by (simp add: onExit_def Let_def)
  have e3: "eventHandlers (onExit p code signal) = eventHandlers p"
    by (simp add: onExit_def Let_def)
  have l1: "\<not> isBlank line \<and> parse line = Some msg \<and>
    optProp (Some msg) ''type'' = Some (JStr ''response'') \<and> getProp msg ''id'' = Some (JStr i) \<longrightarrow>
      onLine parse throws (onExit p code signal) line = (None, onExit p code signal)"
    using e1 by (auto simp: onLine_def responseId_Some_iff [symmetric])
  have l2: "\<not> isBlank line \<and> parse line = Some msg \<and>
    \<not> (optProp (Some msg) ''type'' = Some (JStr ''response'') \<and>
       (\<exists>j. getProp msg ''id'' = Some (JStr j))) \<longrightarrow>
      onLine parse throws (onExit p code signal) line =
        (List.find (\<lambda>h. (h, msg) \<in> throws) (eventHandlers p),
         (onExit p code signal)
           \<lparr>effects := effects (onExit p code signal) @
              map (\<lambda>h. invoke h msg)
                (takeWhile (\<lambda>h. (h, msg) \<notin> throws) (eventHandlers p) @
                 take 1 (dropWhile (\<lambda>h. (h, msg) \<notin> throws) (eventHandlers p)))\<rparr>)"
    using onLine_event [of line parse msg throws "onExit p code signal"] e3
    by (simp add: responseId_None_iff)
  have l3: "\<not> isBlank line \<and> parse line = Some msg \<and>
    \<not> (optProp (Some msg) ''type'' = Some (JStr ''response'') \<and>
       (\<exists>j. getProp msg ''id'' = Some (JStr j))) \<and>
    list_all (\<lambda>h. (h, msg) \<notin> throws) (eventHandlers p) \<longrightarrow>
      effects (snd (onLine parse throws (onExit p code signal) line)) =
        effects (onExit p code signal) @ map (\<lambda>h. invoke h msg) (eventHandlers p)"
    using onLine_event_no_exception [of line parse msg throws "onExit p code signal"] e3
    by (simp add: responseId_None_iff)
  show ?thesis
    using e1 e2 e3 l1 l2 l3 by blast
qed

text \<open>
  An event is dispatched after the exit: the transport has one pending request and one
  listener, which does not throw, the subprocess exits with code 1, and the line of a
  \<open>turn_end\<close> event that is read afterwards reaches the listener.
\<close>

theorem onLine_after_exit_dispatches:
  "onLine [''{\"type\":\"turn_end\"}'' \<mapsto> JObj [(''type'', JStr ''turn_end'')]] {}
     (onExit \<lparr>pending = [(''r1'', 0)], eventHandlers = [7 :: nat], promises = 1, effects = []\<rparr>
        (Some 1) None)
     ''{\"type\":\"turn_end\"}''
   = (None,
      \<lparr>pending = [], eventHandlers = [7 :: nat], promises = 1,
        effects = [reject 0 (process_exited (Some 1) None),
                   invoke 7 (JObj [(''type'', JStr ''turn_end'')])]\<rparr>)"
  by (simp add: onLine_def onExit_def isBlank_def isWhiteSpace_def responseId_def optProp_def)

theorem onExit_rejects_pending_witness:
  "onExit \<lparr>pending = [(''r1'', 0), (''r2'', 1)], eventHandlers = [7 :: nat], promises = 2, effects = []\<rparr>
     (Some 1) None
   = \<lparr>pending = [], eventHandlers = [7 :: nat], promises = 2,
       effects = [reject 0 (process_exited (Some 1) None), reject 1 (process_exited (Some 1) None)]\<rparr> \<and>
   onLine [''{\"type\":\"response\",\"id\":\"r1\"}'' \<mapsto> JObj [(''type'', JStr ''response''), (''id'', JStr ''r1'')]]
     {}
     (onExit \<lparr>pending = [(''r1'', 0), (''r2'', 1)], eventHandlers = [7 :: nat], promises = 2, effects = []\<rparr>
        (Some 1) None)
     ''{\"type\":\"response\",\"id\":\"r1\"}''
   = (None,
      \<lparr>pending = [], eventHandlers = [7 :: nat], promises = 2,
        effects = [reject 0 (process_exited (Some 1) None), reject 1 (process_exited (Some 1) None)]\<rparr>) \<and>
   onLine [''{\"type\":\"agent_end\"}'' \<mapsto> JObj [(''type'', JStr ''agent_end'')]]
     {(7, JObj [(''type'', JStr ''agent_end'')])}
     (onExit \<lparr>pending = [(''r1'', 0), (''r2'', 1)], eventHandlers = [7 :: nat, 8], promises = 2, effects = []\<rparr>
        (Some 1) None)
     ''{\"type\":\"agent_end\"}''
   = (Some 7,
      \<lparr>pending = [], eventHandlers = [7 :: nat, 8], promises = 2,
        effects = [reject 0 (process_exited (Some 1) None), reject 1 (process_exited (Some 1) None),
                   invoke 7 (JObj [(''type'', JStr ''agent_end'')])]\<rparr>)"
proof -
  have e: "onExit \<lparr>pending = [(''r1'', 0), (''r2'', 1)], eventHandlers = [7 :: nat], promises = 2, effects = []\<rparr>
     (Some 1) None
   = \<lparr>pending = [], eventHandlers = [7 :: nat], promises = 2,
       effects = [reject 0 (process_exited (Some 1) None), reject 1 (process_exited (Some 1) None)]\<rparr>"
    by (simp add: onExit_def Let_def)
  have e': "onExit \<lparr>pending = [(''r1'', 0), (''r2'', 1)], eventHandlers = [7 :: nat, 8], promises = 2, effects = []\<rparr>
     (Some 1) None
   = \<lparr>pending = [], eventHandlers = [7 :: nat, 8], promises = 2,
       effects = [reject 0 (process_exited (Some 1) None), reject 1 (process_exited (Some 1) None)]\<rparr>"
    by (simp add: onExit_def Let_def)
  have b1: "\<not> isBlank ''{\"type\":\"response\",\"id\":\"r1\"}''"
    by (simp add: isBlank_def isWhiteSpace_def)
  have b2: "\<not> isBlank ''{\"type\":\"agent_end\"}''"
    by (simp add: isBlank_def isWhiteSpace_def)
  show ?thesis
    using onExit_rejects_pending
            [of "\<lparr>pending = [(''r1'', 0), (''r2'', 1)], eventHandlers = [7 :: nat], promises = 2, effects = []\<rparr>"
                "Some 1" None "''{\"type\":\"response\",\"id\":\"r1\"}''"
                "[''{\"type\":\"response\",\"id\":\"r1\"}'' \<mapsto> JObj [(''type'', JStr ''response''), (''id'', JStr ''r1'')]]"
                "JObj [(''type'', JStr ''response''), (''id'', JStr ''r1'')]" "''r1''" "{}"]
          onExit_rejects_pending
            [of "\<lparr>pending = [(''r1'', 0), (''r2'', 1)], eventHandlers = [7 :: nat, 8], promises = 2, effects = []\<rparr>"
                "Some 1" None "''{\"type\":\"agent_end\"}''"
                "[''{\"type\":\"agent_end\"}'' \<mapsto> JObj [(''type'', JStr ''agent_end'')]]"
                "JObj [(''type'', JStr ''agent_end'')]" "''x''"
                "{(7, JObj [(''type'', JStr ''agent_end'')])}"]
          b1 b2 e e'
    by (simp add: optProp_def)
qed

section \<open>Properties of the session\<close>

subsection \<open>The cases of handlePiEvent\<close>

lemma eventType_JNull: "eventType js JNull = Inr []"
  by (simp add: eventType_def nullish_def)

lemma handlePiEvent_JNull: "handlePiEvent js uuid s JNull = Inl TypeError"
  by (simp add: handlePiEvent_def)

lemma handlePiEvent_type_throws:
  "ev \<noteq> JNull \<Longrightarrow> eventType js ev = Inl e \<Longrightarrow> handlePiEvent js uuid s ev = Inl e"
  by (simp add: handlePiEvent_def)

lemma handlePiEvent_message_update:
  "eventType js ev = Inr ''message_update'' \<Longrightarrow>
   handlePiEvent js uuid s ev =
     (case textDelta js ev of Some d \<Rightarrow> Inr (emit s (agent_message_chunk d)) | None \<Rightarrow> Inr s)"
  by (cases "ev = JNull")
     (auto simp: handlePiEvent_def textDelta_def eventType_JNull Let_def split: option.splits json.splits)

lemma handlePiEvent_tool_execution_start:
  "eventType js ev = Inr ''tool_execution_start'' \<Longrightarrow>
   handlePiEvent js uuid s ev =
     (case jsString js (nullish (getProp ev ''toolCallId'') (JStr uuid)) of
        Inl e \<Rightarrow> Inl e
      | Inr toolCallId \<Rightarrow>
          (case jsString js (nullish (getProp ev ''toolName'') (JStr ''tool'')) of
             Inl e \<Rightarrow> Inl e
           | Inr toolName \<Rightarrow>
               Inr (emit (emit (s\<lparr>currentToolCalls := insert toolCallId (currentToolCalls s)\<rparr>)
                            (tool_call toolCallId toolName (toToolKind toolName) status_pending
                               (getProp ev ''args'')))
                      (tool_call_update toolCallId status_in_progress None None))))"
  by (cases "ev = JNull") (auto simp: handlePiEvent_def eventType_JNull Let_def split: sum.splits)

lemma handlePiEvent_tool_execution_update:
  "eventType js ev = Inr ''tool_execution_update'' \<Longrightarrow>
   handlePiEvent js uuid s ev =
     (case eventToolCallId js ev of
        Inl e \<Rightarrow> Inl e
      | Inr toolCallId \<Rightarrow>
          if toolCallId = [] then Inr s
          else Inr (emit s (tool_call_update toolCallId status_in_progress
                              (textContent (toolResultToText js (getProp ev ''partialResult'')))
                              (getProp ev ''partialResult''))))"
  by (cases "ev = JNull") (auto simp: handlePiEvent_def eventType_JNull Let_def split: sum.splits)

lemma handlePiEvent_tool_execution_end:
  "eventType js ev = Inr ''tool_execution_end'' \<Longrightarrow>
   handlePiEvent js uuid s ev =
     (case eventToolCallId js ev of
        Inl e \<Rightarrow> Inl e
      | Inr toolCallId \<Rightarrow>
          if toolCallId = [] then Inr s
          else Inr ((emit s (tool_call_update toolCallId
                               (if truthy (getProp ev ''isError'') then status_failed else status_completed)
                               (textContent (toolResultToText js (getProp ev ''result'')))
                               (getProp ev ''result'')))
                    \<lparr>currentToolCalls := currentToolCalls s - {toolCallId}\<rparr>))"
  by (cases "ev = JNull")
     (auto simp: handlePiEvent_def eventType_JNull Let_def emit_def split: sum.splits)

lemma handlePiEvent_turn_end:
  "eventType js ev = Inr ''turn_end'' \<Longrightarrow>
   handlePiEvent js uuid s ev = Inr (flushEmits_finally s on_turn_end)"
  by (cases "ev = JNull") (auto simp: handlePiEvent_def eventType_JNull)

lemma handlePiEvent_other:
  "ev \<noteq> JNull \<Longrightarrow> eventType js ev = Inr t \<Longrightarrow>
   t \<noteq> ''message_update'' \<Longrightarrow> t \<noteq> ''tool_execution_start'' \<Longrightarrow>
   t \<noteq> ''tool_execution_update'' \<Longrightarrow> t \<noteq> ''tool_execution_end'' \<Longrightarrow>
   t \<noteq> ''turn_end'' \<Longrightarrow>
   handlePiEvent js uuid s ev = Inr s"
  by (simp add: handlePiEvent_def)

lemma handlePiEvent_frame:
  assumes "handlePiEvent js uuid s ev = Inr s'"
  shows "started s' = started s" and "settled s' = settled s" and "connCalls s' = connCalls s"
    and "sessionId s' = sessionId s" and "fileCommands s' = fileCommands s"
    and "cancelRequested s' = cancelRequested s" and "pendingTurn s' = pendingTurn s"
    and "turnPromises s' = turnPromises s" and "resolved s' = resolved s"
    and "procCalls s' = procCalls s"
    and "\<exists>new. lastEmit s' = lastEmit s @ new"
    and "finalizers s' =
           (if eventType js ev = Inr ''turn_end'' then finalizers s @ [(length (lastEmit s), on_turn_end)]
            else finalizers s)"
    and "eventType js ev = Inr ''turn_end'' \<Longrightarrow> lastEmit s' = lastEmit s"
proof -
  have nn: "ev \<noteq> JNull"
    using assms by (auto simp: handlePiEvent_JNull)
  obtain t where t: "eventType js ev = Inr t"
    using assms nn by (cases "eventType js ev") (auto simp: handlePiEvent_type_throws)
  consider (mu) "t = ''message_update''"
    | (ts) "t = ''tool_execution_start''"
    | (tu) "t = ''tool_execution_update''"
    | (te) "t = ''tool_execution_end''"
    | (tn) "t = ''turn_end''"
    | (other) "t \<noteq> ''message_update''" "t \<noteq> ''tool_execution_start''"
        "t \<noteq> ''tool_execution_update''" "t \<noteq> ''tool_execution_end''"
        "t \<noteq> ''turn_end''"
    by blast
  then have
    "started s' = started s \<and> settled s' = settled s \<and> connCalls s' = connCalls s \<and>
     sessionId s' = sessionId s \<and> fileCommands s' = fileCommands s \<and>
     cancelRequested s' = cancelRequested s \<and> pendingTurn s' = pendingTurn s \<and>
     turnPromises s' = turnPromises s \<and> resolved s' = resolved s \<and> procCalls s' = procCalls s \<and>
     (\<exists>new. lastEmit s' = lastEmit s @ new) \<and>
     finalizers s' =
           (if eventType js ev = Inr ''turn_end'' then finalizers s @ [(length (lastEmit s), on_turn_end)]
            else finalizers s) \<and>
     (eventType js ev = Inr ''turn_end'' \<longrightarrow> lastEmit s' = lastEmit s)"
  proof cases
    case mu
    then show ?thesis
      using assms t by (auto simp: handlePiEvent_message_update emit_def split: option.splits)
  next
    case ts
    then show ?thesis
      using assms t by (auto simp: handlePiEvent_tool_execution_start emit_def split: sum.splits)
  next
    case tu
    then show ?thesis
      using assms t
      by (auto simp: handlePiEvent_tool_execution_update emit_def split: if_splits sum.splits)
  next
    case te
    then show ?thesis
      using assms t
      by (auto simp: handlePiEvent_tool_execution_end emit_def split: if_splits sum.splits)
  next
    case tn
    then show ?thesis
      using assms t by (auto simp: handlePiEvent_turn_end flushEmits_finally_def)
  next
    case other
    then show ?thesis
      using assms nn t by (simp add: handlePiEvent_other)
  qed
  then show "started s' = started s" and "settled s' = settled s" and "connCalls s' = connCalls s"
    and "sessionId s' = sessionId s" and "fileCommands s' = fileCommands s"
    and "cancelRequested s' = cancelRequested s" and "pendingTurn s' = pendingTurn s"
    and "turnPromises s' = turnPromises s" and "resolved s' = resolved s"
    and "procCalls s' = procCalls s"
    and "\<exists>new. lastEmit s' = lastEmit s @ new"
    and "finalizers s' =
           (if eventType js ev = Inr ''turn_end'' then finalizers s @ [(length (lastEmit s), on_turn_end)]
            else finalizers s)"
    and "eventType js ev = Inr ''turn_end'' \<Longrightarrow> lastEmit s' = lastEmit s"
    by blast+
qed

lemma handlePiEvent_wellFormed:
  assumes wf: "wellFormed s" and h: "handlePiEvent js uuid s ev = Inr s'"
  shows "wellFormed s'"
proof -
  note fr = handlePiEvent_frame [OF h]
  obtain new where new: "lastEmit s' = lastEmit s @ new"
    using fr(11) by blast
  have fin: "list_all (\<lambda>(n, f). n \<le> length (lastEmit s')) (finalizers s')"
    using wf fr(12) new by (auto simp: wellFormed_def list_all_iff)
  show ?thesis
    using wf fin fr(1-10) new by (auto simp: wellFormed_def split: option.splits)
qed

subsection \<open>Every action keeps a session well formed\<close>

lemma prompt_wellFormed: "wellFormed s \<Longrightarrow> wellFormed (snd (prompt s m a))"
  by (auto simp: prompt_def wellFormed_def Let_def list_all_iff split: option.splits)

lemma cancel_wellFormed: "wellFormed s \<Longrightarrow> wellFormed (cancel s)"
  by (auto simp: cancel_def wellFormed_def Let_def split: option.splits)

lemma promptRejected_wellFormed: "wellFormed s \<Longrightarrow> wellFormed (promptRejected s)"
  by (auto simp: promptRejected_def flushEmits_finally_def wellFormed_def split: option.splits)

lemma deliverStart_wellFormed: "wellFormed s \<Longrightarrow> deliverStart s = Some s' \<Longrightarrow> wellFormed s'"
  by (auto simp: deliverStart_def wellFormed_def take_Suc_conv_app_nth split: if_splits option.splits)

lemma deliverEnd_wellFormed: "wellFormed s \<Longrightarrow> deliverEnd ok s = Some s' \<Longrightarrow> wellFormed s'"
  by (auto simp: deliverEnd_def wellFormed_def split: if_splits option.splits)

lemma finalize_wellFormed:
  assumes "wellFormed s"
  shows "wellFormed (finalize f s)"
proof (cases "pendingTurn s")
  case None
  then show ?thesis
    using assms by (simp add: finalize_def wellFormed_def Let_def)
next
  case (Some t)
  then show ?thesis
    using assms by (auto simp: finalize_def wellFormed_def Let_def list_all_iff)
qed

lemma runFinalizer_wellFormed:
  assumes "wellFormed s" and "runFinalizer i s = Some s'"
  shows "wellFormed s'"
proof -
  have "wellFormed (s\<lparr>finalizers := take i (finalizers s) @ drop (Suc i) (finalizers s)\<rparr>)"
    using assms(1)
    by (auto simp: wellFormed_def list_all_iff split: option.splits dest: in_set_takeD in_set_dropD)
  then show ?thesis
    using assms(2) by (auto simp: runFinalizer_def finalize_wellFormed split: if_splits)
qed

lemma step_wellFormed:
  assumes "wellFormed s" and "step js s a = Some s'"
  shows "wellFormed s'"
proof (cases a)
  case (call_prompt m atts)
  then show ?thesis using assms by (auto simp: prompt_wellFormed)
next
  case call_cancel
  then show ?thesis using assms by (auto simp: cancel_wellFormed)
next
  case (pi_event ev uuid)
  then show ?thesis
    using assms by (auto split: sum.splits dest: handlePiEvent_wellFormed)
next
  case prompt_rejected
  then show ?thesis using assms by (auto simp: promptRejected_wellFormed)
next
  case deliver_start
  then show ?thesis using assms by (auto dest: deliverStart_wellFormed)
next
  case (deliver_end ok)
  then show ?thesis using assms by (auto dest: deliverEnd_wellFormed)
next
  case (run_finalizer i)
  then show ?thesis using assms by (auto dest: runFinalizer_wellFormed)
qed

lemma run_append:
  "run js s (as @ bs) =
     (case run js s as of None \<Rightarrow> None | Some s' \<Rightarrow> run js s' bs)"
  by (induction as arbitrary: s) (auto split: option.splits)

lemma run_wellFormed:
  "wellFormed s \<Longrightarrow> run js s as = Some s' \<Longrightarrow> wellFormed s'"
proof (induction as arbitrary: s)
  case Nil
  then show ?case by simp
next
  case (Cons a as)
  then show ?case
    by (auto split: option.splits dest: step_wellFormed)
qed

lemma newSession_wellFormed: "wellFormed (newSession sid cmds)"
  by (simp add: newSession_def wellFormed_def)

subsection \<open>What the actions leave unchanged\<close>

lemma step_delivery_frame:
  assumes "isDelivery a" and "step js s a = Some s'"
  shows "lastEmit s' = lastEmit s" and "finalizers s' = finalizers s"
    and "pendingTurn s' = pendingTurn s" and "resolved s' = resolved s"
    and "cancelRequested s' = cancelRequested s" and "sessionId s' = sessionId s"
    and "turnPromises s' = turnPromises s" and "procCalls s' = procCalls s"
    and "settled s \<le> settled s'"
  using assms
  by (cases a; auto simp: deliverStart_def deliverEnd_def split: if_splits)+

lemma step_delta:
  assumes "actionDelta js a = Some d"
  shows "step js s a = Some (emit s (agent_message_chunk d))"
proof -
  obtain ev uuid where a: "a = pi_event ev uuid" and td: "textDelta js ev = Some d"
    using assms by (cases a) auto
  have "eventType js ev = Inr ''message_update''"
    using td by (auto simp: textDelta_def split: if_splits)
  then show ?thesis
    using a td by (simp add: handlePiEvent_message_update)
qed

lemma step_keepsTurnOpen_frame:
  assumes "keepsTurnOpen js a" and "step js s a = Some s'"
  shows "finalizers s' = finalizers s" and "pendingTurn s' = pendingTurn s"
    and "resolved s' = resolved s" and "turnPromises s' = turnPromises s"
    and "sessionId s' = sessionId s" and "\<exists>new. lastEmit s' = lastEmit s @ new"
    and "settled s \<le> settled s'"
proof -
  have "finalizers s' = finalizers s \<and> pendingTurn s' = pendingTurn s \<and>
        resolved s' = resolved s \<and> turnPromises s' = turnPromises s \<and>
        sessionId s' = sessionId s \<and> (\<exists>new. lastEmit s' = lastEmit s @ new) \<and>
        settled s \<le> settled s'"
  proof (cases a)
    case (pi_event ev uuid)
    show ?thesis
    proof (cases "handlePiEvent js uuid s ev")
      case (Inl e)
      then show ?thesis using assms pi_event by simp
    next
      case (Inr s2)
      have s2: "s2 = s'" using assms Inr pi_event by simp
      have nt: "eventType js ev \<noteq> Inr ''turn_end''" using assms pi_event by simp
      show ?thesis
        using handlePiEvent_frame [OF Inr] nt s2 by simp
    qed
  next
    case deliver_start
    then show ?thesis using assms by (auto simp: deliverStart_def split: if_splits)
  next
    case (deliver_end ok)
    then show ?thesis using assms by (auto simp: deliverEnd_def split: if_splits)
  next
    case call_cancel
    then show ?thesis using assms by (auto simp: cancel_def Let_def)
  qed (use assms in auto)
  then show "finalizers s' = finalizers s" and "pendingTurn s' = pendingTurn s"
    and "resolved s' = resolved s" and "turnPromises s' = turnPromises s"
    and "sessionId s' = sessionId s" and "\<exists>new. lastEmit s' = lastEmit s @ new"
    and "settled s \<le> settled s'"
    by blast+
qed

lemma run_keepsTurnOpen_frame:
  assumes "list_all (keepsTurnOpen js) as" and "run js s as = Some s'"
  shows "finalizers s' = finalizers s \<and> pendingTurn s' = pendingTurn s \<and>
         resolved s' = resolved s \<and> turnPromises s' = turnPromises s \<and>
         sessionId s' = sessionId s \<and> (\<exists>new. lastEmit s' = lastEmit s @ new) \<and>
         settled s \<le> settled s'"
  using assms
proof (induction as arbitrary: s)
  case Nil
  then show ?case by simp
next
  case (Cons a as)
  obtain s1 where s1: "step js s a = Some s1" and r: "run js s1 as = Some s'"
    using Cons.prems(2) by (auto split: option.splits)
  have k: "keepsTurnOpen js a" and ks: "list_all (keepsTurnOpen js) as"
    using Cons.prems(1) by simp_all
  show ?case
    using Cons.IH [OF ks r] step_keepsTurnOpen_frame [OF k s1] by auto
qed

lemma step_background_frame:
  assumes "background a" and "step js s a = Some s'"
  shows "lastEmit s' = lastEmit s" and "finalizers s' = finalizers s"
    and "pendingTurn s' = pendingTurn s" and "resolved s' = resolved s"
    and "sessionId s' = sessionId s" and "turnPromises s' = turnPromises s"
    and "settled s \<le> settled s'"
  using assms
  by (cases a; auto simp: background_def deliverStart_def deliverEnd_def cancel_def Let_def
        split: if_splits)+

lemma actionDelta_delivery: "isDelivery a \<Longrightarrow> actionDelta js a = None"
  by (cases a) auto

lemma actionDelta_background: "background a \<Longrightarrow> actionDelta js a = None"
  by (cases a) (auto simp: background_def)

lemma run_deltas:
  assumes "list_all (\<lambda>a. background a \<or> actionDelta js a \<noteq> None) as"
    and "run js s as = Some s'"
  shows "lastEmit s' = lastEmit s @ map agent_message_chunk (List.map_filter (actionDelta js) as) \<and>
         finalizers s' = finalizers s \<and> pendingTurn s' = pendingTurn s \<and>
         resolved s' = resolved s \<and> sessionId s' = sessionId s"
  using assms
proof (induction as arbitrary: s)
  case Nil
  then show ?case by (simp add: List.map_filter_simps)
next
  case (Cons a as)
  obtain s1 where s1: "step js s a = Some s1" and r: "run js s1 as = Some s'"
    using Cons.prems(2) by (auto split: option.splits)
  have rest: "list_all (\<lambda>a. background a \<or> actionDelta js a \<noteq> None) as"
    using Cons.prems(1) by simp
  note ih = Cons.IH [OF rest r]
  show ?case
  proof (cases "actionDelta js a")
    case None
    then have d: "background a" using Cons.prems(1) by simp
    show ?thesis
      using ih step_background_frame [OF d s1] None by (simp add: List.map_filter_simps)
  next
    case (Some d)
    have "s1 = emit s (agent_message_chunk d)"
      using step_delta [OF Some, of s] s1 by simp
    then show ?thesis
      using ih Some by (simp add: List.map_filter_simps emit_def)
  qed
qed

lemma run_background:
  assumes "list_all background as" and "run js s as = Some s'"
  shows "lastEmit s' = lastEmit s \<and> finalizers s' = finalizers s \<and>
         pendingTurn s' = pendingTurn s \<and> resolved s' = resolved s \<and>
         sessionId s' = sessionId s"
proof -
  have 1: "list_all (\<lambda>a. background a \<or> actionDelta js a \<noteq> None) as"
    using assms(1) by (simp add: list_all_iff)
  have 2: "List.map_filter (actionDelta js) as = []"
    using assms(1) by (induction as) (simp_all add: List.map_filter_simps actionDelta_background)
  show ?thesis
    using run_deltas [OF 1 assms(2)] 2 by simp
qed

lemma run_deliveries:
  assumes "list_all isDelivery as" and "run js s as = Some s'"
  shows "lastEmit s' = lastEmit s \<and> finalizers s' = finalizers s \<and>
         pendingTurn s' = pendingTurn s \<and> resolved s' = resolved s \<and>
         cancelRequested s' = cancelRequested s \<and> sessionId s' = sessionId s"
  using assms
proof (induction as arbitrary: s)
  case Nil
  then show ?case by simp
next
  case (Cons a as)
  obtain s1 where s1: "step js s a = Some s1" and r: "run js s1 as = Some s'"
    using Cons.prems(2) by (auto split: option.splits)
  have d: "isDelivery a" and ds: "list_all isDelivery as"
    using Cons.prems(1) by simp_all
  show ?case
    using Cons.IH [OF ds r] step_delivery_frame [OF d s1] by simp
qed

subsection \<open>Deliveries, the waiting callbacks and the resolution of a turn\<close>

lemma run_drain_idle:
  "started s = settled s \<Longrightarrow> started s \<le> length (lastEmit s) \<Longrightarrow>
   n = length (lastEmit s) - started s \<Longrightarrow>
   \<exists>s'. run js s (concat (replicate n [deliver_start, deliver_end True])) = Some s' \<and>
        settled s' = length (lastEmit s') \<and> started s' = length (lastEmit s')"
proof (induction n arbitrary: s)
  case 0
  then show ?case by simp
next
  case (Suc n)
  define s1 where
    "s1 = s\<lparr>connCalls := connCalls s @ [(sessionId s, lastEmit s ! started s)],
             started := Suc (started s)\<rparr>"
  define s2 where "s2 = s1\<lparr>settled := Suc (settled s1)\<rparr>"
  have lt: "started s < length (lastEmit s)"
    using Suc.prems by simp
  have st1: "step js s deliver_start = Some s1"
    using Suc.prems(1) lt by (simp add: deliverStart_def s1_def)
  have st2: "step js s1 (deliver_end True) = Some s2"
    using Suc.prems(1) by (simp add: deliverEnd_def s1_def s2_def)
  have "\<exists>s'. run js s2 (concat (replicate n [deliver_start, deliver_end True])) = Some s' \<and>
        settled s' = length (lastEmit s') \<and> started s' = length (lastEmit s')"
    using Suc.prems lt by (intro Suc.IH) (simp_all add: s1_def s2_def)
  then show ?case
    using st1 st2 by simp
qed

lemma run_drain:
  assumes "wellFormed s"
  shows "\<exists>s'. run js s (drain s) = Some s' \<and>
              settled s' = length (lastEmit s') \<and> started s' = length (lastEmit s')"
proof (cases "settled s < started s")
  case True
  define s1 where "s1 = s\<lparr>settled := Suc (settled s)\<rparr>"
  have st: "step js s (deliver_end True) = Some s1"
    using True by (simp add: deliverEnd_def s1_def)
  have eq: "started s1 = settled s1"
    using True assms by (simp add: wellFormed_def s1_def)
  have le: "started s1 \<le> length (lastEmit s1)"
    using assms by (simp add: wellFormed_def s1_def)
  have n: "length (lastEmit s) - started s = length (lastEmit s1) - started s1"
    by (simp add: s1_def)
  show ?thesis
    using run_drain_idle [OF eq le n, of js] st True by (simp add: drain_def)
next
  case False
  then have eq: "started s = settled s"
    using assms by (simp add: wellFormed_def)
  have le: "started s \<le> length (lastEmit s)"
    using assms by (simp add: wellFormed_def)
  show ?thesis
    using run_drain_idle [OF eq le refl, of js] False by (simp add: drain_def)
qed

lemma drain_deliveries: "list_all isDelivery (drain s)"
  by (simp add: drain_def list_all_iff)

lemma runFinalizer_single:
  "finalizers s = [(n, f)] \<Longrightarrow>
   runFinalizer 0 s = (if n \<le> settled s then Some (finalize f (s\<lparr>finalizers := []\<rparr>)) else None)"
  by (simp add: runFinalizer_def)

lemma finalize_open:
  "pendingTurn s = Some t \<Longrightarrow>
   finalize f s =
     s\<lparr>resolved := resolved s @
          [(t, case f of
                 on_turn_end \<Rightarrow> if cancelRequested s then cancelled else end_turn
               | on_prompt_error \<Rightarrow> if cancelRequested s then cancelled else error)],
       pendingTurn := None\<rparr>"
  by (simp add: finalize_def Let_def)

lemma wellFormed_all_delivered:
  "wellFormed s \<Longrightarrow> n \<le> settled s \<Longrightarrow> take n (map snd (connCalls s)) = take n (lastEmit s)"
  by (simp add: wellFormed_def comp_def take_map [symmetric] min_def)

lemma step_resolved_prefix:
  assumes "step js s a = Some s'"
  shows "\<exists>new. resolved s' = resolved s @ new"
proof (cases a)
  case (call_prompt m atts)
  then show ?thesis using assms by (auto simp: prompt_def Let_def split: option.splits)
next
  case call_cancel
  then show ?thesis using assms by (auto simp: cancel_def Let_def)
next
  case (pi_event ev uuid)
  then show ?thesis
    using assms by (auto split: sum.splits dest: handlePiEvent_frame(9))
next
  case prompt_rejected
  then show ?thesis using assms by (auto simp: promptRejected_def flushEmits_finally_def)
next
  case deliver_start
  then show ?thesis using assms by (auto simp: deliverStart_def split: if_splits)
next
  case (deliver_end ok)
  then show ?thesis using assms by (auto simp: deliverEnd_def split: if_splits)
next
  case (run_finalizer i)
  then show ?thesis
    using assms by (auto simp: runFinalizer_def finalize_def Let_def split: if_splits option.splits)
qed

lemma run_resolved_prefix:
  "run js s as = Some s' \<Longrightarrow> \<exists>new. resolved s' = resolved s @ new"
proof (induction as arbitrary: s)
  case Nil
  then show ?case by simp
next
  case (Cons a as)
  obtain s1 where s1: "step js s a = Some s1" and r: "run js s1 as = Some s'"
    using Cons.prems by (auto split: option.splits)
  show ?case
    using step_resolved_prefix [OF s1] Cons.IH [OF r] by auto
qed

lemma distinct_fst_filter:
  "distinct (map fst xs) \<Longrightarrow> (t, r) \<in> set xs \<Longrightarrow> filter (\<lambda>x. fst x = t) xs = [(t, r)]"
proof (induction xs)
  case Nil
  then show ?case by simp
next
  case (Cons x xs)
  show ?case
  proof (cases "x = (t, r)")
    case True
    then have "t \<notin> fst ` set xs" using Cons.prems(1) by simp
    then have "filter (\<lambda>x. fst x = t) xs = []"
      by (auto simp: filter_empty_conv)
    then show ?thesis using True by simp
  next
    case False
    then have in_xs: "(t, r) \<in> set xs" using Cons.prems(2) by simp
    then have "fst x \<noteq> t" using Cons.prems(1) by (auto simp: image_iff)
    then show ?thesis using Cons.IH in_xs Cons.prems(1) by simp
  qed
qed

lemma resolved_once:
  assumes "wellFormed s" and "(t, r) \<in> set (resolved s)" and "run js s as = Some s'"
  shows "filter (\<lambda>x. fst x = t) (resolved s') = [(t, r)]"
proof -
  have "distinct (map fst (resolved s'))"
    using run_wellFormed [OF assms(1,3)] by (simp add: wellFormed_def)
  moreover have "(t, r) \<in> set (resolved s')"
    using run_resolved_prefix [OF assms(3)] assms(2) by auto
  ultimately show ?thesis
    by (rule distinct_fst_filter)
qed

section \<open>Turns, cancellation and tool events\<close>

text \<open>
  The turn of a session on which no callback waits. The session has an open turn. It
  observes text deltas, then a \<open>turn_end\<close>; deliveries and calls of \<^verbatim>\<open>cancel\<close> may happen in
  between and afterwards, in any order. Then: one message chunk per delta has been added to
  the chain, carrying the delta as it is, in the order the deltas were observed; the turn
  is still open, and its one waiting callback awaits the whole chain as it was at the
  \<open>turn_end\<close>; the callback cannot run before every one of these notifications has finished
  delivering, and when it runs the connection has received them all, in order; it resolves
  the turn to \<open>cancelled\<close> if the cancellation flag is set and to \<open>end_turn\<close> otherwise, and
  clears the open turn; letting the outstanding deliveries finish always gets there; and
  whatever happens later, that is the only resolution of this turn.
\<close>

theorem message_chunks_then_turn_end:
  assumes wf: "wellFormed s" and opn: "pendingTurn s = Some t" and nofin: "finalizers s = []"
    and A: "list_all (\<lambda>a. background a \<or> actionDelta js a \<noteq> None) A"
    and te: "eventType js ev = Inr ''turn_end''"
    and B: "list_all background B"
    and rn: "run js s (A @ pi_event ev uuid # B) = Some s1"
  shows "lastEmit s1 = lastEmit s @ map agent_message_chunk (List.map_filter (actionDelta js) A) \<and>
         finalizers s1 = [(length (lastEmit s1), on_turn_end)] \<and>
         pendingTurn s1 = Some t \<and> resolved s1 = resolved s \<and>
         runFinalizer 0 s1 =
           (if settled s1 = length (lastEmit s1)
            then Some (s1\<lparr>finalizers := [],
                          resolved := resolved s @
                            [(t, if cancelRequested s1 then cancelled else end_turn)],
                          pendingTurn := None\<rparr>)
            else None) \<and>
         (settled s1 = length (lastEmit s1) \<longrightarrow> map snd (connCalls s1) = lastEmit s1) \<and>
         (\<exists>s2. run js s1 (drain s1 @ [run_finalizer 0]) = Some s2 \<and>
               map snd (connCalls s2) = lastEmit s1 \<and>
               resolved s2 = resolved s @ [(t, if cancelRequested s1 then cancelled else end_turn)] \<and>
               pendingTurn s2 = None \<and> finalizers s2 = []) \<and>
         (\<forall>s2 later s3. runFinalizer 0 s1 = Some s2 \<and> run js s2 later = Some s3 \<longrightarrow>
               filter (\<lambda>x. fst x = t) (resolved s3) =
                 [(t, if cancelRequested s1 then cancelled else end_turn)])"
proof -
  define reason where "reason = (if cancelRequested s1 then cancelled else end_turn)"
  obtain sa where sa: "run js s A = Some sa"
    and rest: "run js sa (pi_event ev uuid # B) = Some s1"
    using rn by (auto simp: run_append split: option.splits)
  define sb where "sb = flushEmits_finally sa on_turn_end"
  have sb: "step js sa (pi_event ev uuid) = Some sb"
    using te by (simp add: handlePiEvent_turn_end sb_def)
  have rb: "run js sb B = Some s1"
    using rest sb by simp
  note fa = run_deltas [OF A sa]
  note fb = run_background [OF B rb]
  have wf1: "wellFormed s1"
    using run_wellFormed [OF wf rn] .
  have emits: "lastEmit s1 = lastEmit s @ map agent_message_chunk (List.map_filter (actionDelta js) A)"
    using fa fb by (simp add: sb_def flushEmits_finally_def)
  have fin: "finalizers s1 = [(length (lastEmit s1), on_turn_end)]"
    using fa fb nofin by (simp add: sb_def flushEmits_finally_def)
  have pt: "pendingTurn s1 = Some t"
    using fa fb opn by (simp add: sb_def flushEmits_finally_def)
  have res: "resolved s1 = resolved s"
    using fa fb by (simp add: sb_def flushEmits_finally_def)
  have le: "settled s1 \<le> length (lastEmit s1)"
    using wf1 by (simp add: wellFormed_def)
  have fz: "finalize on_turn_end (s1\<lparr>finalizers := []\<rparr>) =
              s1\<lparr>finalizers := [], resolved := resolved s @ [(t, reason)], pendingTurn := None\<rparr>"
    using pt res by (simp add: finalize_open reason_def)
  have rf: "runFinalizer 0 s1 =
           (if settled s1 = length (lastEmit s1)
            then Some (s1\<lparr>finalizers := [], resolved := resolved s @ [(t, reason)],
                          pendingTurn := None\<rparr>)
            else None)"
    using le fz by (auto simp: runFinalizer_single [OF fin])
  have dl: "settled s1 = length (lastEmit s1) \<longrightarrow> map snd (connCalls s1) = lastEmit s1"
    using wellFormed_all_delivered [OF wf1, of "length (lastEmit s1)"] wf1
    by (auto simp: wellFormed_def)
  have live: "\<exists>s2. run js s1 (drain s1 @ [run_finalizer 0]) = Some s2 \<and>
               map snd (connCalls s2) = lastEmit s1 \<and>
               resolved s2 = resolved s @ [(t, reason)] \<and>
               pendingTurn s2 = None \<and> finalizers s2 = []"
  proof -
    obtain sd where sd: "run js s1 (drain s1) = Some sd"
      and full: "settled sd = length (lastEmit sd)" "started sd = length (lastEmit sd)"
      using run_drain [OF wf1] by blast
    note fd = run_deliveries [OF drain_deliveries sd]
    have wfd: "wellFormed sd"
      using run_wellFormed [OF wf1 sd] .
    have find: "finalizers sd = [(length (lastEmit sd), on_turn_end)]"
      using fd fin by simp
    have cd: "map snd (connCalls sd) = lastEmit s1"
      using wellFormed_all_delivered [OF wfd, of "length (lastEmit sd)"] full fd wfd
      by (auto simp: wellFormed_def)
    have "runFinalizer 0 sd =
            Some (sd\<lparr>finalizers := [], resolved := resolved s @ [(t, reason)], pendingTurn := None\<rparr>)"
      using fd pt res full by (simp add: runFinalizer_single [OF find] finalize_open reason_def)
    then show ?thesis
      using sd cd by (simp add: run_append)
  qed
  have once: "\<forall>s2 later s3. runFinalizer 0 s1 = Some s2 \<and> run js s2 later = Some s3 \<longrightarrow>
               filter (\<lambda>x. fst x = t) (resolved s3) = [(t, reason)]"
  proof (intro allI impI)
    fix s2 later s3
    assume h: "runFinalizer 0 s1 = Some s2 \<and> run js s2 later = Some s3"
    then have s2: "s2 = s1\<lparr>finalizers := [], resolved := resolved s @ [(t, reason)], pendingTurn := None\<rparr>"
      using rf by (auto split: if_splits)
    have wf2: "wellFormed s2"
      using runFinalizer_wellFormed [OF wf1] h by blast
    have "(t, reason) \<in> set (resolved s2)"
      using s2 by simp
    then show "filter (\<lambda>x. fst x = t) (resolved s3) = [(t, reason)]"
      using resolved_once [OF wf2] h by blast
  qed
  show ?thesis
    using emits fin pt res rf dl live once unfolding reason_def by blast
qed

theorem message_chunks_then_turn_end_witness:
  "run examplePlatform (snd (prompt (newSession ''s1'' []) ''hi'' []))
       ([pi_event (JObj [(''type'', JStr ''message_update''),
                         (''assistantMessageEvent'',
                          JObj [(''type'', JStr ''text_delta''), (''delta'', JStr ''Hel'')])]) [],
         deliver_start,
         pi_event (JObj [(''type'', JStr ''message_update''),
                         (''assistantMessageEvent'',
                          JObj [(''type'', JStr ''text_delta''), (''delta'', JStr ''lo'')])]) []]
        @ pi_event (JObj [(''type'', JStr ''turn_end'')]) []
        # [deliver_end True, deliver_start, deliver_end False])
   = Some \<lparr>sessionId = ''s1'', fileCommands = [], cancelRequested = False, pendingTurn = Some 0,
       currentToolCalls = {},
       lastEmit = [agent_message_chunk ''Hel'', agent_message_chunk ''lo''],
       started = 2, settled = 2, finalizers = [(2, on_turn_end)],
       turnPromises = 1, resolved = [], procCalls = [proc_prompt ''hi'' []],
       connCalls = [(''s1'', agent_message_chunk ''Hel''), (''s1'', agent_message_chunk ''lo'')]\<rparr> \<and>
   runFinalizer 0
     \<lparr>sessionId = ''s1'', fileCommands = [], cancelRequested = False, pendingTurn = Some 0,
       currentToolCalls = {},
       lastEmit = [agent_message_chunk ''Hel'', agent_message_chunk ''lo''],
       started = 2, settled = 2, finalizers = [(2, on_turn_end)],
       turnPromises = 1, resolved = [], procCalls = [proc_prompt ''hi'' []],
       connCalls = [(''s1'', agent_message_chunk ''Hel''), (''s1'', agent_message_chunk ''lo'')]\<rparr>
   = Some \<lparr>sessionId = ''s1'', fileCommands = [], cancelRequested = False, pendingTurn = None,
       currentToolCalls = {},
       lastEmit = [agent_message_chunk ''Hel'', agent_message_chunk ''lo''],
       started = 2, settled = 2, finalizers = [],
       turnPromises = 1, resolved = [(0, end_turn)], procCalls = [proc_prompt ''hi'' []],
       connCalls = [(''s1'', agent_message_chunk ''Hel''), (''s1'', agent_message_chunk ''lo'')]\<rparr>"
proof -
  let ?s = "snd (prompt (newSession ''s1'' []) ''hi'' [])"
  let ?A = "[pi_event (JObj [(''type'', JStr ''message_update''),
                         (''assistantMessageEvent'',
                          JObj [(''type'', JStr ''text_delta''), (''delta'', JStr ''Hel'')])]) [],
         deliver_start,
         pi_event (JObj [(''type'', JStr ''message_update''),
                         (''assistantMessageEvent'',
                          JObj [(''type'', JStr ''text_delta''), (''delta'', JStr ''lo'')])]) []]"
  let ?B = "[deliver_end True, deliver_start, deliver_end False]"
  let ?s1 = "\<lparr>sessionId = ''s1'', fileCommands = [], cancelRequested = False, pendingTurn = Some 0,
       currentToolCalls = {},
       lastEmit = [agent_message_chunk ''Hel'', agent_message_chunk ''lo''],
       started = 2, settled = 2, finalizers = [(2, on_turn_end)],
       turnPromises = 1, resolved = [], procCalls = [proc_prompt ''hi'' []],
       connCalls = [(''s1'', agent_message_chunk ''Hel''), (''s1'', agent_message_chunk ''lo'')]\<rparr>"
  have wf: "wellFormed ?s"
    by (simp add: prompt_wellFormed newSession_wellFormed)
  have opn: "pendingTurn ?s = Some 0"
    by (simp add: prompt_def newSession_def Let_def)
  have nofin: "finalizers ?s = []"
    by (simp add: prompt_def newSession_def Let_def)
  have A: "list_all (\<lambda>a. background a \<or> actionDelta examplePlatform a \<noteq> None) ?A"
    by code_simp
  have te: "eventType examplePlatform (JObj [(''type'', JStr ''turn_end'')]) = Inr ''turn_end''"
    by code_simp
  have B: "list_all background ?B"
    by code_simp
  have r: "run examplePlatform ?s (?A @ pi_event (JObj [(''type'', JStr ''turn_end'')]) [] # ?B) = Some ?s1"
    by code_simp
  have "runFinalizer 0 ?s1 =
           (if settled ?s1 = length (lastEmit ?s1)
            then Some (?s1\<lparr>finalizers := [],
                          resolved := resolved ?s @
                            [(0, if cancelRequested ?s1 then cancelled else end_turn)],
                          pendingTurn := None\<rparr>)
            else None)"
    using message_chunks_then_turn_end [OF wf opn nofin A te B r] by blast
  moreover have "resolved ?s = []"
    by (simp add: prompt_def newSession_def Let_def)
  ultimately show ?thesis
    using r by simp
qed

text \<open>
  C1. A session with an open turn observes text deltas and then a \<open>turn_end\<close>: a message
  chunk per delta is enqueued, in order, every notification enqueued up to the \<open>turn_end\<close>
  finishes delivering before the turn resolves, and the turn resolves once, to \<open>cancelled\<close>
  if the cancellation flag is set and to \<open>end_turn\<close> otherwise. The code departs from this
  when a callback registered during an earlier turn is still waiting, because a callback
  resolves whatever turn is open when it runs. In this run the first turn ends; a late delta
  of the backend is being delivered when the request of the first prompt is rejected, so
  that the callback of the rejection waits for that delivery; a second prompt opens turn 1,
  which observes the delta \<open>x\<close> and a \<open>turn_end\<close>; then the late delivery finishes and the
  delivery of \<open>x\<close> starts. In the state reached, the callback left by the first turn can
  run and the one of the \<open>turn_end\<close> cannot: turn 1 is resolved to \<open>error\<close> while the chunk
  \<open>x\<close> is still being delivered.
\<close>

theorem turn_end_resolved_by_earlier_callback:
  "run examplePlatform (newSession ''s1'' [])
     [call_prompt ''hi'' [],
      pi_event (JObj [(''type'', JStr ''turn_end'')]) [],
      run_finalizer 0,
      pi_event (JObj [(''type'', JStr ''message_update''),
                      (''assistantMessageEvent'',
                       JObj [(''type'', JStr ''text_delta''), (''delta'', JStr ''late'')])]) [],
      deliver_start,
      prompt_rejected,
      call_prompt ''more'' [],
      pi_event (JObj [(''type'', JStr ''message_update''),
                      (''assistantMessageEvent'',
                       JObj [(''type'', JStr ''text_delta''), (''delta'', JStr ''x'')])]) [],
      pi_event (JObj [(''type'', JStr ''turn_end'')]) [],
      deliver_end True,
      deliver_start]
   = Some \<lparr>sessionId = ''s1'', fileCommands = [], cancelRequested = False, pendingTurn = Some 1,
        currentToolCalls = {},
        lastEmit = [agent_message_chunk ''late'', agent_message_chunk ''x''],
        started = 2, settled = 1, finalizers = [(1, on_prompt_error), (2, on_turn_end)],
        turnPromises = 2, resolved = [(0, end_turn)],
        procCalls = [proc_prompt ''hi'' [], proc_prompt ''more'' []],
        connCalls = [(''s1'', agent_message_chunk ''late''), (''s1'', agent_message_chunk ''x'')]\<rparr> \<and>
   runFinalizer 0
     \<lparr>sessionId = ''s1'', fileCommands = [], cancelRequested = False, pendingTurn = Some 1,
       currentToolCalls = {},
       lastEmit = [agent_message_chunk ''late'', agent_message_chunk ''x''],
       started = 2, settled = 1, finalizers = [(1, on_prompt_error), (2, on_turn_end)],
       turnPromises = 2, resolved = [(0, end_turn)],
       procCalls = [proc_prompt ''hi'' [], proc_prompt ''more'' []],
       connCalls = [(''s1'', agent_message_chunk ''late''), (''s1'', agent_message_chunk ''x'')]\<rparr>
   = Some \<lparr>sessionId = ''s1'', fileCommands = [], cancelRequested = False, pendingTurn = None,
        currentToolCalls = {},
        lastEmit = [agent_message_chunk ''late'', agent_message_chunk ''x''],
        started = 2, settled = 1, finalizers = [(2, on_turn_end)],
        turnPromises = 2, resolved = [(0, end_turn), (1, error)],
        procCalls = [proc_prompt ''hi'' [], proc_prompt ''more'' []],
        connCalls = [(''s1'', agent_message_chunk ''late''), (''s1'', agent_message_chunk ''x'')]\<rparr> \<and>
   runFinalizer 1
     \<lparr>sessionId = ''s1'', fileCommands = [], cancelRequested = False, pendingTurn = Some 1,
       currentToolCalls = {},
       lastEmit = [agent_message_chunk ''late'', agent_message_chunk ''x''],
       started = 2, settled = 1, finalizers = [(1, on_prompt_error), (2, on_turn_end)],
       turnPromises = 2, resolved = [(0, end_turn)],
       procCalls = [proc_prompt ''hi'' [], proc_prompt ''more'' []],
       connCalls = [(''s1'', agent_message_chunk ''late''), (''s1'', agent_message_chunk ''x'')]\<rparr>
   = None"
  by code_simp

text \<open>
  The failure of the request of a session on which no callback waits. The session has an
  open turn, and the promise of the backend prompt request is rejected before any
  \<open>turn_end\<close> arrives; deliveries, calls of \<^verbatim>\<open>cancel\<close> and events other than \<open>turn_end\<close> may
  follow in any order. Then the turn is still open and its one waiting callback awaits the
  chain as it was at the rejection: it cannot run before every notification enqueued by
  then has finished delivering, and when it runs the connection has received them, in
  order. It resolves the turn (the only thing the code ever does to a turn promise) to
  \<open>cancelled\<close> if the cancellation flag is set and to \<open>error\<close> otherwise, and clears the open
  turn; letting the outstanding deliveries finish always gets there; and whatever happens
  later, that is the only resolution of this turn.
\<close>

theorem prompt_rejection_resolves_turn:
  assumes wf: "wellFormed s" and opn: "pendingTurn s = Some t" and nofin: "finalizers s = []"
    and B: "list_all (keepsTurnOpen js) B"
    and rn: "run js s (prompt_rejected # B) = Some s1"
  shows "finalizers s1 = [(length (lastEmit s), on_prompt_error)] \<and>
         pendingTurn s1 = Some t \<and> resolved s1 = resolved s \<and>
         runFinalizer 0 s1 =
           (if length (lastEmit s) \<le> settled s1
            then Some (s1\<lparr>finalizers := [],
                          resolved := resolved s @
                            [(t, if cancelRequested s1 then cancelled else error)],
                          pendingTurn := None\<rparr>)
            else None) \<and>
         (length (lastEmit s) \<le> settled s1 \<longrightarrow>
            take (length (lastEmit s)) (map snd (connCalls s1)) = lastEmit s) \<and>
         (\<exists>s2. run js s1 (drain s1 @ [run_finalizer 0]) = Some s2 \<and>
               resolved s2 = resolved s @ [(t, if cancelRequested s1 then cancelled else error)] \<and>
               pendingTurn s2 = None \<and> finalizers s2 = []) \<and>
         (\<forall>s2 later s3. runFinalizer 0 s1 = Some s2 \<and> run js s2 later = Some s3 \<longrightarrow>
               filter (\<lambda>x. fst x = t) (resolved s3) =
                 [(t, if cancelRequested s1 then cancelled else error)])"
proof -
  define reason where "reason = (if cancelRequested s1 then cancelled else error)"
  define sr where "sr = promptRejected s"
  have rb: "run js sr B = Some s1"
    using rn by (simp add: sr_def)
  note fb = run_keepsTurnOpen_frame [OF B rb]
  obtain new where new: "lastEmit s1 = lastEmit s @ new"
    using fb by (auto simp: sr_def promptRejected_def flushEmits_finally_def)
  have wf1: "wellFormed s1"
    using run_wellFormed [OF wf rn] .
  have fin: "finalizers s1 = [(length (lastEmit s), on_prompt_error)]"
    using fb nofin by (simp add: sr_def promptRejected_def flushEmits_finally_def)
  have pt: "pendingTurn s1 = Some t"
    using fb opn by (simp add: sr_def promptRejected_def flushEmits_finally_def)
  have res: "resolved s1 = resolved s"
    using fb by (simp add: sr_def promptRejected_def flushEmits_finally_def)
  have fz: "finalize on_prompt_error (s1\<lparr>finalizers := []\<rparr>) =
              s1\<lparr>finalizers := [], resolved := resolved s @ [(t, reason)], pendingTurn := None\<rparr>"
    using pt res by (simp add: finalize_open reason_def)
  have rf: "runFinalizer 0 s1 =
           (if length (lastEmit s) \<le> settled s1
            then Some (s1\<lparr>finalizers := [], resolved := resolved s @ [(t, reason)],
                          pendingTurn := None\<rparr>)
            else None)"
    using fz by (simp add: runFinalizer_single [OF fin])
  have dl: "length (lastEmit s) \<le> settled s1 \<longrightarrow>
            take (length (lastEmit s)) (map snd (connCalls s1)) = lastEmit s"
    using wellFormed_all_delivered [OF wf1, of "length (lastEmit s)"] new by simp
  have live: "\<exists>s2. run js s1 (drain s1 @ [run_finalizer 0]) = Some s2 \<and>
               resolved s2 = resolved s @ [(t, reason)] \<and>
               pendingTurn s2 = None \<and> finalizers s2 = []"
  proof -
    obtain sd where sd: "run js s1 (drain s1) = Some sd"
      and full: "settled sd = length (lastEmit sd)"
      using run_drain [OF wf1] by blast
    note fd = run_deliveries [OF drain_deliveries sd]
    have find: "finalizers sd = [(length (lastEmit s), on_prompt_error)]"
      using fd fin by simp
    have "length (lastEmit s) \<le> settled sd"
      using full fd new by simp
    then have "runFinalizer 0 sd =
            Some (sd\<lparr>finalizers := [], resolved := resolved s @ [(t, reason)], pendingTurn := None\<rparr>)"
      using fd pt res by (simp add: runFinalizer_single [OF find] finalize_open reason_def)
    then show ?thesis
      using sd by (simp add: run_append)
  qed
  have once: "\<forall>s2 later s3. runFinalizer 0 s1 = Some s2 \<and> run js s2 later = Some s3 \<longrightarrow>
               filter (\<lambda>x. fst x = t) (resolved s3) = [(t, reason)]"
  proof (intro allI impI)
    fix s2 later s3
    assume h: "runFinalizer 0 s1 = Some s2 \<and> run js s2 later = Some s3"
    then have s2: "s2 = s1\<lparr>finalizers := [], resolved := resolved s @ [(t, reason)], pendingTurn := None\<rparr>"
      using rf by (auto split: if_splits)
    have wf2: "wellFormed s2"
      using runFinalizer_wellFormed [OF wf1] h by blast
    have "(t, reason) \<in> set (resolved s2)"
      using s2 by simp
    then show "filter (\<lambda>x. fst x = t) (resolved s3) = [(t, reason)]"
      using resolved_once [OF wf2] h by blast
  qed
  show ?thesis
    using fin pt res rf dl live once unfolding reason_def by blast
qed

text \<open>
  The request fails with one notification enqueued and not yet delivered; then \<^verbatim>\<open>cancel\<close> is
  called and the delivery finishes: the callback resolves the turn to \<open>cancelled\<close>. Right
  after the failure, with the delivery outstanding, the callback cannot run.
\<close>

theorem prompt_rejection_resolves_turn_witness:
  "run examplePlatform
     \<lparr>sessionId = ''s1'', fileCommands = [], cancelRequested = False, pendingTurn = Some 0,
       currentToolCalls = {}, lastEmit = [agent_message_chunk ''Hel''],
       started = 0, settled = 0, finalizers = [],
       turnPromises = 1, resolved = [], procCalls = [proc_prompt ''hi'' []], connCalls = []\<rparr>
     (prompt_rejected # [call_cancel, deliver_start, deliver_end True])
   = Some \<lparr>sessionId = ''s1'', fileCommands = [], cancelRequested = True, pendingTurn = Some 0,
       currentToolCalls = {}, lastEmit = [agent_message_chunk ''Hel''],
       started = 1, settled = 1, finalizers = [(1, on_prompt_error)],
       turnPromises = 1, resolved = [], procCalls = [proc_prompt ''hi'' [], proc_abort],
       connCalls = [(''s1'', agent_message_chunk ''Hel'')]\<rparr> \<and>
   runFinalizer 0
     \<lparr>sessionId = ''s1'', fileCommands = [], cancelRequested = True, pendingTurn = Some 0,
       currentToolCalls = {}, lastEmit = [agent_message_chunk ''Hel''],
       started = 1, settled = 1, finalizers = [(1, on_prompt_error)],
       turnPromises = 1, resolved = [], procCalls = [proc_prompt ''hi'' [], proc_abort],
       connCalls = [(''s1'', agent_message_chunk ''Hel'')]\<rparr>
   = Some \<lparr>sessionId = ''s1'', fileCommands = [], cancelRequested = True, pendingTurn = None,
       currentToolCalls = {}, lastEmit = [agent_message_chunk ''Hel''],
       started = 1, settled = 1, finalizers = [],
       turnPromises = 1, resolved = [(0, cancelled)], procCalls = [proc_prompt ''hi'' [], proc_abort],
       connCalls = [(''s1'', agent_message_chunk ''Hel'')]\<rparr> \<and>
   runFinalizer 0
     \<lparr>sessionId = ''s1'', fileCommands = [], cancelRequested = False, pendingTurn = Some 0,
       currentToolCalls = {}, lastEmit = [agent_message_chunk ''Hel''],
       started = 0, settled = 0, finalizers = [(1, on_prompt_error)],
       turnPromises = 1, resolved = [], procCalls = [proc_prompt ''hi'' []], connCalls = []\<rparr>
   = None"
proof -
  let ?s = "\<lparr>sessionId = ''s1'', fileCommands = [], cancelRequested = False, pendingTurn = Some 0,
       currentToolCalls = {}, lastEmit = [agent_message_chunk ''Hel''],
       started = 0, settled = 0, finalizers = [],
       turnPromises = 1, resolved = [], procCalls = [proc_prompt ''hi'' []], connCalls = []\<rparr>"
  let ?B = "[call_cancel, deliver_start, deliver_end True]"
  let ?sb = "\<lparr>sessionId = ''s1'', fileCommands = [], cancelRequested = True, pendingTurn = Some 0,
       currentToolCalls = {}, lastEmit = [agent_message_chunk ''Hel''],
       started = 1, settled = 1, finalizers = [(1, on_prompt_error)],
       turnPromises = 1, resolved = [], procCalls = [proc_prompt ''hi'' [], proc_abort],
       connCalls = [(''s1'', agent_message_chunk ''Hel'')]\<rparr>"
  let ?sa = "\<lparr>sessionId = ''s1'', fileCommands = [], cancelRequested = False, pendingTurn = Some 0,
       currentToolCalls = {}, lastEmit = [agent_message_chunk ''Hel''],
       started = 0, settled = 0, finalizers = [(1, on_prompt_error)],
       turnPromises = 1, resolved = [], procCalls = [proc_prompt ''hi'' []], connCalls = []\<rparr>"
  have wf: "wellFormed ?s"
    by (simp add: wellFormed_def)
  have opn: "pendingTurn ?s = Some 0"
    by simp
  have nofin: "finalizers ?s = []"
    by simp
  have B: "list_all (keepsTurnOpen examplePlatform) ?B"
    by simp
  have B0: "list_all (keepsTurnOpen examplePlatform) []"
    by simp
  have r: "run examplePlatform ?s (prompt_rejected # ?B) = Some ?sb"
    by code_simp
  have r0: "run examplePlatform ?s (prompt_rejected # []) = Some ?sa"
    by code_simp
  have 1: "runFinalizer 0 ?sb =
           (if length (lastEmit ?s) \<le> settled ?sb
            then Some (?sb\<lparr>finalizers := [],
                          resolved := resolved ?s @
                            [(0, if cancelRequested ?sb then cancelled else error)],
                          pendingTurn := None\<rparr>)
            else None)"
    using prompt_rejection_resolves_turn [OF wf opn nofin B r] by blast
  have 2: "runFinalizer 0 ?sa =
           (if length (lastEmit ?s) \<le> settled ?sa
            then Some (?sa\<lparr>finalizers := [],
                          resolved := resolved ?s @
                            [(0, if cancelRequested ?sa then cancelled else error)],
                          pendingTurn := None\<rparr>)
            else None)"
    using prompt_rejection_resolves_turn [OF wf opn nofin B0 r0] by blast
  show ?thesis
    using r 1 2 by simp
qed

text \<open>
  C3. When the backend prompt request fails before any \<open>turn_end\<close> arrives, the session
  waits for the notifications already enqueued to finish delivering and then resolves the
  open turn, to \<open>cancelled\<close> if cancellation was requested and to \<open>error\<close> otherwise. The code
  departs from this when a callback registered during an earlier turn is still waiting,
  because a callback resolves whatever turn is open when it runs. In this run the first
  turn ends; a late delta of the backend is being delivered when the request of the first
  prompt is rejected, so that the callback of that rejection waits for that delivery; a
  second prompt opens turn 1, the delta \<open>x\<close> is enqueued, and the request of the second
  prompt is rejected; then the late delivery finishes and the delivery of \<open>x\<close> starts. In
  the state reached, the callback left by the first turn can run and the one of the second
  rejection cannot: turn 1 is resolved while the chunk \<open>x\<close>, enqueued before its request
  failed, is still being delivered.
\<close>

theorem prompt_rejection_resolved_by_earlier_callback:
  "run examplePlatform (newSession ''s1'' [])
     [call_prompt ''hi'' [],
      pi_event (JObj [(''type'', JStr ''turn_end'')]) [],
      run_finalizer 0,
      pi_event (JObj [(''type'', JStr ''message_update''),
                      (''assistantMessageEvent'',
                       JObj [(''type'', JStr ''text_delta''), (''delta'', JStr ''late'')])]) [],
      deliver_start,
      prompt_rejected,
      call_prompt ''more'' [],
      pi_event (JObj [(''type'', JStr ''message_update''),
                      (''assistantMessageEvent'',
                       JObj [(''type'', JStr ''text_delta''), (''delta'', JStr ''x'')])]) [],
      prompt_rejected,
      deliver_end True,
      deliver_start]
   = Some \<lparr>sessionId = ''s1'', fileCommands = [], cancelRequested = False, pendingTurn = Some 1,
        currentToolCalls = {},
        lastEmit = [agent_message_chunk ''late'', agent_message_chunk ''x''],
        started = 2, settled = 1, finalizers = [(1, on_prompt_error), (2, on_prompt_error)],
        turnPromises = 2, resolved = [(0, end_turn)],
        procCalls = [proc_prompt ''hi'' [], proc_prompt ''more'' []],
        connCalls = [(''s1'', agent_message_chunk ''late''), (''s1'', agent_message_chunk ''x'')]\<rparr> \<and>
   runFinalizer 0
     \<lparr>sessionId = ''s1'', fileCommands = [], cancelRequested = False, pendingTurn = Some 1,
       currentToolCalls = {},
       lastEmit = [agent_message_chunk ''late'', agent_message_chunk ''x''],
       started = 2, settled = 1, finalizers = [(1, on_prompt_error), (2, on_prompt_error)],
       turnPromises = 2, resolved = [(0, end_turn)],
       procCalls = [proc_prompt ''hi'' [], proc_prompt ''more'' []],
       connCalls = [(''s1'', agent_message_chunk ''late''), (''s1'', agent_message_chunk ''x'')]\<rparr>
   = Some \<lparr>sessionId = ''s1'', fileCommands = [], cancelRequested = False, pendingTurn = None,
        currentToolCalls = {},
        lastEmit = [agent_message_chunk ''late'', agent_message_chunk ''x''],
        started = 2, settled = 1, finalizers = [(2, on_prompt_error)],
        turnPromises = 2, resolved = [(0, end_turn), (1, error)],
        procCalls = [proc_prompt ''hi'' [], proc_prompt ''more'' []],
        connCalls = [(''s1'', agent_message_chunk ''late''), (''s1'', agent_message_chunk ''x'')]\<rparr> \<and>
   runFinalizer 1
     \<lparr>sessionId = ''s1'', fileCommands = [], cancelRequested = False, pendingTurn = Some 1,
       currentToolCalls = {},
       lastEmit = [agent_message_chunk ''late'', agent_message_chunk ''x''],
       started = 2, settled = 1, finalizers = [(1, on_prompt_error), (2, on_prompt_error)],
       turnPromises = 2, resolved = [(0, end_turn)],
       procCalls = [proc_prompt ''hi'' [], proc_prompt ''more'' []],
       connCalls = [(''s1'', agent_message_chunk ''late''), (''s1'', agent_message_chunk ''x'')]\<rparr>
   = None"
  by code_simp

text \<open>
  C4. With a turn open, \<^verbatim>\<open>prompt\<close> fails at once with the invalid-request error
  and the session is exactly as before: the open turn is the same, and no request has been
  passed to the backend.
\<close>

theorem prompt_while_turn_open:
  "pendingTurn s \<noteq> None \<Longrightarrow>
   prompt s message attachments = (Inl (invalidRequest ''A prompt is already in progress''), s) \<and>
   step js s (call_prompt message attachments) = Some s"
  by (auto simp: prompt_def)

lemma step_not_cancelled:
  assumes "a \<noteq> call_cancel" and "\<not> cancelRequested s" and "step js s a = Some s'"
  shows "\<not> cancelRequested s' \<and>
         (\<exists>new. resolved s' = resolved s @ new \<and> list_all (\<lambda>x. snd x \<noteq> cancelled) new)"
proof (cases a)
  case (call_prompt m atts)
  then show ?thesis using assms by (auto simp: prompt_def Let_def split: option.splits)
next
  case call_cancel
  then show ?thesis using assms by simp
next
  case (pi_event ev uuid)
  then show ?thesis
    using assms by (auto split: sum.splits dest: handlePiEvent_frame(6,9))
next
  case prompt_rejected
  then show ?thesis using assms by (auto simp: promptRejected_def flushEmits_finally_def)
next
  case deliver_start
  then show ?thesis using assms by (auto simp: deliverStart_def split: if_splits)
next
  case (deliver_end ok)
  then show ?thesis using assms by (auto simp: deliverEnd_def split: if_splits)
next
  case (run_finalizer i)
  then show ?thesis
    using assms
    by (auto simp: runFinalizer_def finalize_def Let_def split: if_splits option.splits Finalizer.splits)
qed

lemma run_not_cancelled:
  assumes "list_all (\<lambda>a. a \<noteq> call_cancel) as" and "\<not> cancelRequested s"
    and "run js s as = Some s'"
  shows "\<not> cancelRequested s' \<and>
         (\<exists>new. resolved s' = resolved s @ new \<and> list_all (\<lambda>x. snd x \<noteq> cancelled) new)"
  using assms
proof (induction as arbitrary: s)
  case Nil
  then show ?case by simp
next
  case (Cons a as)
  obtain s1 where s1: "step js s a = Some s1" and r: "run js s1 as = Some s'"
    using Cons.prems(3) by (auto split: option.splits)
  have na: "a \<noteq> call_cancel" and nas: "list_all (\<lambda>a. a \<noteq> call_cancel) as"
    using Cons.prems(1) by simp_all
  obtain new1 where c1: "\<not> cancelRequested s1" and n1: "resolved s1 = resolved s @ new1"
    and l1: "list_all (\<lambda>x. snd x \<noteq> cancelled) new1"
    using step_not_cancelled [OF na Cons.prems(2) s1] by blast
  obtain new2 where c2: "\<not> cancelRequested s'" and n2: "resolved s' = resolved s1 @ new2"
    and l2: "list_all (\<lambda>x. snd x \<noteq> cancelled) new2"
    using Cons.IH [OF nas c1 r] by blast
  have "resolved s' = resolved s @ (new1 @ new2) \<and> list_all (\<lambda>x. snd x \<noteq> cancelled) (new1 @ new2)"
    using n1 n2 l1 l2 by simp
  then show ?case
    using c2 by blast
qed

text \<open>
  C10. A call of \<^verbatim>\<open>prompt\<close> on a session with no open turn succeeds; it clears the
  cancellation flag, whatever it was, and then passes the request to the backend. From there
  on, as long as \<^verbatim>\<open>cancel\<close> is not called, the flag stays clear and no turn is resolved to
  \<open>cancelled\<close>: a cancellation requested before the prompt began cannot classify its outcome.
\<close>

theorem prompt_resets_cancelRequested:
  assumes idle: "pendingTurn s = None"
    and nc: "list_all (\<lambda>a. a \<noteq> call_cancel) later"
    and rn: "run js (snd (prompt s message attachments)) later = Some s'"
  shows "prompt s message attachments =
           (Inr (turnPromises s),
            s\<lparr>cancelRequested := False, pendingTurn := Some (turnPromises s),
              turnPromises := Suc (turnPromises s),
              procCalls := procCalls s @
                [proc_prompt (expandSlashCommand message (fileCommands s)) attachments]\<rparr>) \<and>
         \<not> cancelRequested s' \<and>
         (\<exists>new. resolved s' = resolved s @ new \<and> list_all (\<lambda>x. snd x \<noteq> cancelled) new)"
proof -
  have p: "prompt s message attachments =
           (Inr (turnPromises s),
            s\<lparr>cancelRequested := False, pendingTurn := Some (turnPromises s),
              turnPromises := Suc (turnPromises s),
              procCalls := procCalls s @
                [proc_prompt (expandSlashCommand message (fileCommands s)) attachments]\<rparr>)"
    using idle by (simp add: prompt_def Let_def)
  have c: "\<not> cancelRequested (snd (prompt s message attachments))"
    using p by simp
  have "resolved (snd (prompt s message attachments)) = resolved s"
    using p by simp
  then show ?thesis
    using run_not_cancelled [OF nc c rn] p by simp
qed

theorem prompt_while_turn_open_witness:
  "prompt (snd (prompt (newSession ''s1'' []) ''hi'' [])) ''again'' [] =
     (Inl (invalidRequest ''A prompt is already in progress''),
      \<lparr>sessionId = ''s1'', fileCommands = [], cancelRequested = False, pendingTurn = Some 0,
        currentToolCalls = {}, lastEmit = [], started = 0, settled = 0, finalizers = [],
        turnPromises = 1, resolved = [], procCalls = [proc_prompt ''hi'' []], connCalls = []\<rparr>)"
proof -
  have s: "snd (prompt (newSession ''s1'' []) ''hi'' []) =
      \<lparr>sessionId = ''s1'', fileCommands = [], cancelRequested = False, pendingTurn = Some 0,
        currentToolCalls = {}, lastEmit = [], started = 0, settled = 0, finalizers = [],
        turnPromises = 1, resolved = [], procCalls = [proc_prompt ''hi'' []], connCalls = []\<rparr>"
    by (simp add: prompt_def newSession_def expandSlashCommand_def Let_def)
  have "pendingTurn (snd (prompt (newSession ''s1'' []) ''hi'' [])) \<noteq> None"
    using s by simp
  from prompt_while_turn_open [OF this, of "''again''" "[]" examplePlatform] show ?thesis
    using s by simp
qed

text \<open>
  A first turn has ended and \<^verbatim>\<open>cancel\<close> has been called since, so the flag is set. The next
  \<^verbatim>\<open>prompt\<close> clears it, and its turn ends as \<open>end_turn\<close>.
\<close>

theorem prompt_resets_cancelRequested_witness:
  "run examplePlatform (newSession ''s1'' [])
     [call_prompt ''hi'' [], pi_event (JObj [(''type'', JStr ''turn_end'')]) [], run_finalizer 0,
      call_cancel]
   = Some \<lparr>sessionId = ''s1'', fileCommands = [], cancelRequested = True, pendingTurn = None,
        currentToolCalls = {}, lastEmit = [], started = 0, settled = 0, finalizers = [],
        turnPromises = 1, resolved = [(0, end_turn)],
        procCalls = [proc_prompt ''hi'' [], proc_abort], connCalls = []\<rparr> \<and>
   prompt
     \<lparr>sessionId = ''s1'', fileCommands = [], cancelRequested = True, pendingTurn = None,
       currentToolCalls = {}, lastEmit = [], started = 0, settled = 0, finalizers = [],
       turnPromises = 1, resolved = [(0, end_turn)],
       procCalls = [proc_prompt ''hi'' [], proc_abort], connCalls = []\<rparr>
     ''more'' []
   = (Inr 1,
      \<lparr>sessionId = ''s1'', fileCommands = [], cancelRequested = False, pendingTurn = Some 1,
        currentToolCalls = {}, lastEmit = [], started = 0, settled = 0, finalizers = [],
        turnPromises = 2, resolved = [(0, end_turn)],
        procCalls = [proc_prompt ''hi'' [], proc_abort, proc_prompt ''more'' []],
        connCalls = []\<rparr>) \<and>
   run examplePlatform
     (snd (prompt
        \<lparr>sessionId = ''s1'', fileCommands = [], cancelRequested = True, pendingTurn = None,
          currentToolCalls = {}, lastEmit = [], started = 0, settled = 0, finalizers = [],
          turnPromises = 1, resolved = [(0, end_turn)],
          procCalls = [proc_prompt ''hi'' [], proc_abort], connCalls = []\<rparr>
        ''more'' []))
     [pi_event (JObj [(''type'', JStr ''turn_end'')]) [], run_finalizer 0]
   = Some \<lparr>sessionId = ''s1'', fileCommands = [], cancelRequested = False, pendingTurn = None,
        currentToolCalls = {}, lastEmit = [], started = 0, settled = 0, finalizers = [],
        turnPromises = 2, resolved = [(0, end_turn), (1, end_turn)],
        procCalls = [proc_prompt ''hi'' [], proc_abort, proc_prompt ''more'' []],
        connCalls = []\<rparr>"
proof -
  let ?s = "\<lparr>sessionId = ''s1'', fileCommands = [], cancelRequested = True, pendingTurn = None,
       currentToolCalls = {}, lastEmit = [], started = 0, settled = 0, finalizers = [],
       turnPromises = 1, resolved = [(0, end_turn)],
       procCalls = [proc_prompt ''hi'' [], proc_abort], connCalls = []\<rparr>"
  let ?later = "[pi_event (JObj [(''type'', JStr ''turn_end'')]) [], run_finalizer 0]"
  have before: "run examplePlatform (newSession ''s1'' [])
     [call_prompt ''hi'' [], pi_event (JObj [(''type'', JStr ''turn_end'')]) [], run_finalizer 0,
      call_cancel] = Some ?s"
    by code_simp
  have idle: "pendingTurn ?s = None"
    by simp
  have nc: "list_all (\<lambda>a. a \<noteq> call_cancel) ?later"
    by simp
  have rn: "run examplePlatform (snd (prompt ?s ''more'' [])) ?later
     = Some \<lparr>sessionId = ''s1'', fileCommands = [], cancelRequested = False, pendingTurn = None,
        currentToolCalls = {}, lastEmit = [], started = 0, settled = 0, finalizers = [],
        turnPromises = 2, resolved = [(0, end_turn), (1, end_turn)],
        procCalls = [proc_prompt ''hi'' [], proc_abort, proc_prompt ''more'' []],
        connCalls = []\<rparr>"
    by code_simp
  show ?thesis
    using prompt_resets_cancelRequested [OF idle nc rn] rn before
    by (simp add: expandSlashCommand_def)
qed






end
